theory Spec2Isabelle
  imports Main
begin

section \<open>Python strings\<close>

text \<open>
  The text of a statement and the strings of JSON may hold any character: such a
  Python \<open>str\<close> is a list of code points, and \<open>uni\<close> writes one from a literal.
  \<open>str.isspace\<close> and the class \<open>\s\<close> of \<open>re\<close> accept the same twenty-nine code points.
\<close>

type_synonym ustr = "nat list"

definition uni :: "string \<Rightarrow> ustr" where
  "uni s = map of_char s"

definition uni_isspace :: "nat \<Rightarrow> bool" where
  "uni_isspace n =
     (n \<in> set [9, 10, 11, 12, 13, 28, 29, 30, 31, 32, 133, 160, 5760,
                8192, 8193, 8194, 8195, 8196, 8197, 8198, 8199, 8200, 8201, 8202,
                8232, 8233, 8239, 8287, 12288])"

text \<open>
  The other strings of the program (URLs, the text of a response, messages) are
  modelled as \<open>string\<close>: one \<open>char\<close> per code point, so these cover the code points 0 to
  255 (Latin-1), of which twelve are whitespace to \<open>str.split()\<close> and \<open>str.strip()\<close>.
\<close>

definition py_isspace :: "char \<Rightarrow> bool" where
  "py_isspace c =
     (of_char c \<in> set [9, 10, 11, 12, 13, 28, 29, 30, 31, 32, 133, 160 :: nat])"

text \<open>\<open>s.strip()\<close>: leading and trailing whitespace removed.\<close>

definition py_strip :: "string \<Rightarrow> string" where
  "py_strip s = rev (dropWhile py_isspace (rev (dropWhile py_isspace s)))"

text \<open>
  \<open>s.split()\<close>: the maximal runs of non-whitespace characters, in order.  The first
  argument is the run being read.
\<close>

fun split_ws :: "string \<Rightarrow> string \<Rightarrow> string list" where
  "split_ws cur [] = (if cur = [] then [] else [cur])"
| "split_ws cur (c # cs) =
     (if py_isspace c
      then (if cur = [] then split_ws [] cs else cur # split_ws [] cs)
      else split_ws (cur @ [c]) cs)"

definition py_split :: "string \<Rightarrow> string list" where
  "py_split s = split_ws [] s"

text \<open>\<open>s.split(c)\<close>: every occurrence of the separator cuts.\<close>

fun py_split_on :: "char \<Rightarrow> string \<Rightarrow> string list" where
  "py_split_on c [] = [[]]"
| "py_split_on c (x # xs) =
     (if x = c then [] # py_split_on c xs
      else (case py_split_on c xs of
              y # ys \<Rightarrow> (x # y) # ys
            | [] \<Rightarrow> [[x]]))"

text \<open>\<open>s.split(c, 1)\<close>: only the first occurrence of the separator cuts.\<close>

fun py_split1 :: "char \<Rightarrow> string \<Rightarrow> string list" where
  "py_split1 c [] = [[]]"
| "py_split1 c (x # xs) =
     (if x = c then [[], xs]
      else (case py_split1 c xs of
              y # ys \<Rightarrow> (x # y) # ys
            | [] \<Rightarrow> [[x]]))"

text \<open>\<open>sep.join(parts)\<close>.\<close>

fun py_join :: "string \<Rightarrow> string list \<Rightarrow> string" where
  "py_join sep [] = []"
| "py_join sep [x] = x"
| "py_join sep (x # y # ys) = x @ sep @ py_join sep (y # ys)"

text \<open>
  \<open>int(s)\<close> in base 10: surrounding whitespace, one optional sign, then decimal digits
  in which single underscores may stand between two digits.  \<open>None\<close> is the
  \<open>ValueError\<close>.  The whitespace \<open>int\<close> skips is that of \<open>str.isspace\<close> without the four
  separators 0x1C to 0x1F.  (The interpreter's configurable cap on the number of
  digits, \<open>sys.int_max_str_digits\<close>, is not part of the model.)
\<close>

definition int_isspace :: "char \<Rightarrow> bool" where
  "int_isspace c = (of_char c \<in> set [9, 10, 11, 12, 13, 32, 133, 160 :: nat])"

definition is_digit :: "char \<Rightarrow> bool" where
  "is_digit c = (48 \<le> (of_char c :: nat) \<and> (of_char c :: nat) \<le> 57)"

definition digit_val :: "char \<Rightarrow> nat" where
  "digit_val c = of_char c - 48"

fun parse_digits :: "nat \<Rightarrow> string \<Rightarrow> nat option" where
  "parse_digits acc [] = Some acc"
| "parse_digits acc [c] =
     (if is_digit c then Some (10 * acc + digit_val c) else None)"
| "parse_digits acc (c # d # ds) =
     (if is_digit c then parse_digits (10 * acc + digit_val c) (d # ds)
      else if c = CHR ''_'' \<and> is_digit d then parse_digits (10 * acc + digit_val d) ds
      else None)"

definition parse_unsigned :: "string \<Rightarrow> nat option" where
  "parse_unsigned s =
     (case s of
        [] \<Rightarrow> None
      | c # cs \<Rightarrow> if is_digit c then parse_digits (digit_val c) cs else None)"

definition py_int :: "string \<Rightarrow> int option" where
  "py_int s =
     (case rev (dropWhile int_isspace (rev (dropWhile int_isspace s))) of
        [] \<Rightarrow> None
      | c # cs \<Rightarrow>
          if c = CHR ''-'' then map_option (\<lambda>n. - int n) (parse_unsigned cs)
          else if c = CHR ''+'' then map_option int (parse_unsigned cs)
          else map_option int (parse_unsigned (c # cs)))"

text \<open>\<open>str(n)\<close> for an integer, as the f-string of the base URL formats the port.\<close>

definition digit_char :: "nat \<Rightarrow> char" where
  "digit_char d = ''0123456789'' ! d"

function str_nat :: "nat \<Rightarrow> string" where
  "str_nat n =
     (if n < 10 then [digit_char n]
      else str_nat (n div 10) @ [digit_char (n mod 10)])"
  by pat_completeness auto
termination
  by (relation "measure id") auto

declare str_nat.simps [simp del]

definition py_str_int :: "int \<Rightarrow> string" where
  "py_str_int i = (if i < 0 then CHR ''-'' # str_nat (nat (- i)) else str_nat (nat i))"

section \<open>Regular expressions\<close>

text \<open>
  \<open>re.match(pattern, s)\<close> succeeds when some prefix of \<open>s\<close> belongs to the language
  of the pattern.  Patterns are built from character classes; the matcher works by
  derivatives.
\<close>

datatype 'a rx =
    Zero
  | Eps
  | Atom "'a \<Rightarrow> bool"
  | Alt "'a rx" "'a rx"
  | Seq "'a rx" "'a rx"
  | Star "'a rx"

fun nullable :: "'a rx \<Rightarrow> bool" where
  "nullable Zero = False"
| "nullable Eps = True"
| "nullable (Atom p) = False"
| "nullable (Alt r s) = (nullable r \<or> nullable s)"
| "nullable (Seq r s) = (nullable r \<and> nullable s)"
| "nullable (Star r) = True"

fun deriv :: "'a \<Rightarrow> 'a rx \<Rightarrow> 'a rx" where
  "deriv c Zero = Zero"
| "deriv c Eps = Zero"
| "deriv c (Atom p) = (if p c then Eps else Zero)"
| "deriv c (Alt r s) = Alt (deriv c r) (deriv c s)"
| "deriv c (Seq r s) =
     (if nullable r then Alt (Seq (deriv c r) s) (deriv c s) else Seq (deriv c r) s)"
| "deriv c (Star r) = Seq (deriv c r) (Star r)"

fun re_match :: "'a rx \<Rightarrow> 'a list \<Rightarrow> bool" where
  "re_match r [] = nullable r"
| "re_match r (c # cs) = (nullable r \<or> re_match (deriv c r) cs)"

text \<open>
  A lower-case ASCII letter of a pattern compiled with \<open>re.I\<close> matches the code points
  that \<open>re\<close> lower-cases to it or to one of its listed equivalents: the letter, its
  capital, and besides, for \<open>i\<close> U+0130 and U+0131, for \<open>k\<close> U+212A (the Kelvin sign) and
  for \<open>s\<close> U+017F (the long s).
\<close>

definition ignorecase_class :: "nat \<Rightarrow> nat list" where
  "ignorecase_class lo =
     [lo, lo - 32]
     @ (if lo = 105 then [304, 305] else if lo = 107 then [8490]
        else if lo = 115 then [383] else [])"

text \<open>The pieces of a pattern: \<open>\s\<close>, a letter under \<open>re.I\<close>, a word, \<open>r+\<close>.\<close>

definition rx_space :: "nat rx" where
  "rx_space = Atom uni_isspace"

definition ignorecase :: "nat \<Rightarrow> nat \<Rightarrow> bool" where
  "ignorecase lo ch = (ch \<in> set (ignorecase_class lo))"

definition rx_lit_i :: "nat \<Rightarrow> nat rx" where
  "rx_lit_i lo = Atom (ignorecase lo)"

fun rx_word_i :: "ustr \<Rightarrow> nat rx" where
  "rx_word_i [] = Eps"
| "rx_word_i (c # cs) = Seq (rx_lit_i c) (rx_word_i cs)"

definition rx_plus :: "'a rx \<Rightarrow> 'a rx" where
  "rx_plus r = Seq r (Star r)"

text \<open>The pattern of \<open>Cursor.execute\<close>: \<^verbatim>\<open>^\s*(select|show)\s+\<close> with \<open>re.I\<close>.\<close>

definition query_rx :: "nat rx" where
  "query_rx =
     Seq (Star rx_space)
       (Seq (Alt (rx_word_i (uni ''select'')) (rx_word_i (uni ''show''))) (rx_plus rx_space))"

text \<open>The language of a pattern, the meaning of the matcher.\<close>

inductive_set star :: "'a list set \<Rightarrow> 'a list set" for A :: "'a list set" where
  star_nil: "[] \<in> star A"
| star_app: "u \<in> A \<Longrightarrow> v \<in> star A \<Longrightarrow> u @ v \<in> star A"

fun lang :: "'a rx \<Rightarrow> 'a list set" where
  "lang Zero = {}"
| "lang Eps = {[]}"
| "lang (Atom p) = {[c] | c. p c}"
| "lang (Alt r s) = lang r \<union> lang s"
| "lang (Seq r s) = {u @ v | u v. u \<in> lang r \<and> v \<in> lang s}"
| "lang (Star r) = star (lang r)"

section \<open>JSON values and the errors of the program\<close>

text \<open>
  What \<open>res.json()\<close> returns, and what a request is given as its body.  A string is
  its code points.  An object is the list of its members, each key once (the keys are
  modelled over Latin-1).  \<open>JFloat\<close> keeps the literal of a number that is not an
  integer.
\<close>

datatype json =
    JNull
  | JBool bool
  | JInt int
  | JFloat string
  | JStr ustr
  | JArr "json list"
  | JObj "(string \<times> json) list"

text \<open>
  The exceptions: the two of the package (\<open>InterfaceError\<close> and \<open>NotSupportedError\<close>
  carry a code and a message), the built-in ones the statements of \<open>http.py\<close> can
  raise, the failure of \<open>res.json()\<close>, and the failure of the transport.
\<close>

datatype error =
    InterfaceError int string
  | NotSupportedError int string
  | KeyError
  | IndexError
  | TypeError
  | AttributeError
  | ValueError
  | JSONDecodeError
  | TransportError
  | OtherError string

text \<open>\<open>v[k]\<close> for a string key: only a dict has string keys.\<close>

fun json_item :: "json \<Rightarrow> string \<Rightarrow> error + json" where
  "json_item (JObj kvs) k = (case map_of kvs k of None \<Rightarrow> Inl KeyError | Some v \<Rightarrow> Inr v)"
| "json_item v k = Inl TypeError"

text \<open>\<open>v[0]\<close>: a list or a string gives its first element, a dict has no key \<open>0\<close>.\<close>

fun json_first :: "json \<Rightarrow> error + json" where
  "json_first (JArr []) = Inl IndexError"
| "json_first (JArr (x # xs)) = Inr x"
| "json_first (JStr []) = Inl IndexError"
| "json_first (JStr (c # cs)) = Inr (JStr [c])"
| "json_first (JObj kvs) = Inl KeyError"
| "json_first v = Inl TypeError"

text \<open>\<open>v.get(k, d)\<close>: only a dict has the method.\<close>

fun json_get :: "json \<Rightarrow> string \<Rightarrow> json \<Rightarrow> error + json" where
  "json_get (JObj kvs) k d = (case map_of kvs k of None \<Rightarrow> Inr d | Some v \<Rightarrow> Inr v)"
| "json_get v k d = Inl AttributeError"

text \<open>
  \<open>iter(v)\<close>, as \<open>for\<close> and \<open>zip\<close> call it: a list gives its elements, a string its
  characters, a dict its keys.
\<close>

fun json_iter :: "json \<Rightarrow> error + json list" where
  "json_iter (JArr xs) = Inr xs"
| "json_iter (JStr s) = Inr (map (\<lambda>c. JStr [c]) s)"
| "json_iter (JObj kvs) = Inr (map (\<lambda>kv. JStr (uni (fst kv))) kvs)"
| "json_iter v = Inl TypeError"

section \<open>The data model\<close>

text \<open>
  A \<open>requests.Session\<close>, as far as this module configures it: the credentials and
  the headers set by \<open>Connection.__init__\<close>.  The session attaches both to every
  request sent through it.
\<close>

record Session =
  auth :: "(string \<times> string) option"
  headers :: "(string \<times> string) list"

datatype http_method = GET | POST | DELETE

record Request =
  meth :: http_method
  url :: string
  via :: Session
  json_data :: "(string \<times> json) list option"

text \<open>
  A \<open>requests.Response\<close>: \<open>res_text\<close> is \<open>res.text\<close>, \<open>json_body\<close> is what \<open>res.json()\<close> returns, \<open>None\<close> when
  it raises.
\<close>

record Response =
  status_code :: int
  res_text :: string
  json_body :: "json option"

record Connection =
  sess :: "Session option"
  database :: "string option"
  base_url :: string
  conn_messages :: "json list list"
  autocommit :: bool

text \<open>
  A buffered row: a tuple of converted values, or the raw row of the response that
  the conversion loop of \<open>execute\<close> has not reached.
\<close>

datatype 'v row = Tuple "'v list" | Raw json

text \<open>
  A column descriptor: (name, type_code, display_size, internal_size, precision,
  scale, null_ok, column_flags, ?).
\<close>

type_synonym descriptor =
  "json \<times> string \<times> int option \<times> int option \<times> int option \<times> int option \<times> json \<times> int \<times> int"

text \<open>
  A cursor.  \<open>connection\<close> is the address of its \<open>Connection\<close> object, \<open>rows\<close> is the
  attribute \<open>_rows\<close>.
\<close>

record 'v Cursor =
  connection :: "nat option"
  rows :: "'v row list"
  description :: "descriptor list option"
  arraysize :: int
  rowcount :: json
  messages :: "(int \<times> string) list"
  lastrowid :: "int option"

text \<open>
  What lies outside the cursor: the \<open>Connection\<close> objects by address (several
  cursors may hold the same one), and the requests sent so far.
\<close>

record world =
  conns :: "nat \<Rightarrow> Connection"
  sent :: "Request list"

text \<open>
  What \<open>http.py\<close> imports: the server behind the session (the response to the last
  request of a history, \<open>None\<close> when the transport fails), \<open>urllib.parse.urljoin\<close>,
  \<open>types.ColumnType.get_name\<close> and the table \<open>converters\<close>.
\<close>

type_synonym 'v converter = "json \<Rightarrow> error + 'v"

record 'v env =
  server :: "Request list \<Rightarrow> Response option"
  urljoin :: "string \<Rightarrow> string \<Rightarrow> string"
  get_name :: "json \<Rightarrow> error + string"
  converters :: "string \<Rightarrow> 'v converter option"

section \<open>Connection\<close>

definition closed_error :: error where
  "closed_error = InterfaceError 0 ''connection is closed''"

definition Connection_init ::
  "string option \<Rightarrow> int option \<Rightarrow> string option \<Rightarrow> string option \<Rightarrow> string option \<Rightarrow>
   string \<Rightarrow> string \<Rightarrow> Connection" where
  "Connection_init host port user password db protocol version =
     (let host' = (case host of None \<Rightarrow> ''localhost''
                   | Some h \<Rightarrow> if h = [] then ''localhost'' else h);
          port' = (case port of None \<Rightarrow> 3306 | Some p \<Rightarrow> if p = 0 then 3306 else p);
          a = (case user of
                 None \<Rightarrow> None
               | Some u \<Rightarrow> (case password of None \<Rightarrow> Some (u, []) | Some pw \<Rightarrow> Some (u, pw)))
      in \<lparr>sess = Some \<lparr>auth = a,
                       headers = [(''Content-Type'', ''application/json''),
                                  (''Accept'', ''application/json'')]\<rparr>,
          database = db,
          base_url = protocol @ ''://'' @ host' @ '':'' @ py_str_int port' @ ''/api/''
                     @ version @ ''/'',
          conn_messages = [],
          autocommit = True\<rparr>)"

text \<open>
  A request through a session: it is added to the history, and the server answers or
  the transport fails.
\<close>

definition session_send ::
  "'v env \<Rightarrow> http_method \<Rightarrow> string \<Rightarrow> (string \<times> json) list option \<Rightarrow> Session \<Rightarrow> world \<Rightarrow>
   (error + Response) \<times> world" where
  "session_send env m u d s w =
     (let log = sent w @ [\<lparr>meth = m, url = u, via = s, json_data = d\<rparr>]
      in (case server env log of None \<Rightarrow> Inl TransportError | Some res \<Rightarrow> Inr res,
          w\<lparr>sent := log\<rparr>))"

definition Connection_post ::
  "'v env \<Rightarrow> nat \<Rightarrow> string \<Rightarrow> (string \<times> json) list \<Rightarrow> world \<Rightarrow> (error + Response) \<times> world" where
  "Connection_post env a path d w =
     (case sess (conns w a) of
        None \<Rightarrow> (Inl closed_error, w)
      | Some s \<Rightarrow> session_send env POST (urljoin env (base_url (conns w a)) path) (Some d) s w)"

definition Connection_close :: "nat \<Rightarrow> world \<Rightarrow> world" where
  "Connection_close a w = w\<lparr>conns := (conns w)(a := (conns w a)\<lparr>sess := None\<rparr>)\<rparr>"

definition Connection_commit :: "nat \<Rightarrow> world \<Rightarrow> error + unit" where
  "Connection_commit a w =
     (if autocommit (conns w a) then Inr ()
      else Inl (NotSupportedError 0 ''operation not supported''))"

definition ping_url :: "string \<Rightarrow> string" where
  "ping_url u = py_join ''/'' (take 3 (py_split_on (CHR ''/'') u)) @ ''/ping''"

definition Connection_is_connected ::
  "'v env \<Rightarrow> nat \<Rightarrow> world \<Rightarrow> (error + bool) \<times> world" where
  "Connection_is_connected env a w =
     (case sess (conns w a) of
        None \<Rightarrow> (Inr False, w)
      | Some s \<Rightarrow>
          (case session_send env GET (ping_url (base_url (conns w a))) None s w of
             (Inl e, w') \<Rightarrow> (Inl e, w')
           | (Inr res, w') \<Rightarrow>
               (if status_code res \<le> 400 \<and> res_text res = ''pong'' then (Inr True, w')
                else (Inr False, w'))))"

definition Connection_ping :: "'v env \<Rightarrow> nat \<Rightarrow> bool \<Rightarrow> world \<Rightarrow> (error + unit) \<times> world" where
  "Connection_ping env a reconnect w =
     (case Connection_is_connected env a w of
        (Inl e, w') \<Rightarrow> (Inl e, w')
      | (Inr b, w') \<Rightarrow>
          (if \<not> b then (Inl (InterfaceError 2006 ''Could not connect to SingleStore database''), w')
           else (Inr (), w')))"

section \<open>Cursor\<close>

definition new_cursor :: "nat \<Rightarrow> 'v Cursor" where
  "new_cursor a =
     \<lparr>connection = Some a, rows = [], description = None, arraysize = 1000,
      rowcount = JInt 0, messages = [], lastrowid = None\<rparr>"

definition Cursor_post ::
  "'v env \<Rightarrow> 'v Cursor \<Rightarrow> string \<Rightarrow> (string \<times> json) list \<Rightarrow> world \<Rightarrow>
   (error + Response) \<times> world" where
  "Cursor_post env c path d w =
     (case connection c of
        None \<Rightarrow> (Inl closed_error, w)
      | Some a \<Rightarrow> Connection_post env a path d w)"

definition Cursor_close :: "'v Cursor \<Rightarrow> world \<Rightarrow> 'v Cursor \<times> world" where
  "Cursor_close c w =
     (if connection c \<noteq> None then (c\<lparr>connection := None\<rparr>, w) else (c, w))"

subsection \<open>execute\<close>

text \<open>The classification of the statement.\<close>

definition sql_type :: "ustr \<Rightarrow> string" where
  "sql_type query = (if re_match query_rx query then ''query'' else ''exec'')"

text \<open>
  The exception raised for a response with a status of 400 or more.  The unpacking
  \<open>code, msg = ...\<close> has two parts whenever the text holds a colon.
\<close>

definition http_error :: "Response \<Rightarrow> error" where
  "http_error res =
     (if res_text res \<noteq> [] then
        (if CHR '':'' \<in> set (res_text res) then
           (case py_split1 (CHR '':'') (res_text res) of
              [code, msg] \<Rightarrow>
                (case py_split code of
                   [] \<Rightarrow> IndexError
                 | t # ts \<Rightarrow>
                     (case py_int (last (t # ts)) of
                        None \<Rightarrow> ValueError
                      | Some icode \<Rightarrow> InterfaceError icode (py_strip msg)))
            | _ \<Rightarrow> ValueError)
         else InterfaceError (status_code res) (py_strip (res_text res)))
      else InterfaceError (status_code res) ''HTTP Error'')"

text \<open>
  The loop over the columns: the converters and the descriptors collected so far are
  passed along; on an exception the descriptors already appended stay.
\<close>

fun load_columns ::
  "'v env \<Rightarrow> json list \<Rightarrow> 'v converter list \<Rightarrow> descriptor list \<Rightarrow>
   error option \<times> 'v converter list \<times> descriptor list" where
  "load_columns env [] convs ds = (None, convs, ds)"
| "load_columns env (item # items) convs ds =
     (case json_item item ''dataType'' of
        Inl e \<Rightarrow> (Some e, convs, ds)
      | Inr dt \<Rightarrow>
     (case get_name env dt of
        Inl e \<Rightarrow> (Some e, convs, ds)
      | Inr col_type \<Rightarrow>
     (case converters env col_type of
        None \<Rightarrow> (Some KeyError, convs, ds)
      | Some cv \<Rightarrow>
     (case json_item item ''name'' of
        Inl e \<Rightarrow> (Some e, convs @ [cv], ds)
      | Inr nm \<Rightarrow>
     (case json_get item ''nullable'' (JBool False) of
        Inl e \<Rightarrow> (Some e, convs @ [cv], ds)
      | Inr nl \<Rightarrow>
          load_columns env items (convs @ [cv])
            (ds @ [(nm, col_type, None, None, None, None, nl, 0, 0)]))))))"

text \<open>\<open>tuple(x(y) for x, y in zip(convs, row))\<close>.\<close>

fun convert_cells :: "'v converter list \<Rightarrow> json list \<Rightarrow> error + 'v list" where
  "convert_cells (x # xs) (y # ys) =
     (case x y of
        Inl e \<Rightarrow> Inl e
      | Inr v \<Rightarrow> (case convert_cells xs ys of Inl e \<Rightarrow> Inl e | Inr vs \<Rightarrow> Inr (v # vs)))"
| "convert_cells xs ys = Inr []"

definition convert_row :: "'v converter list \<Rightarrow> json \<Rightarrow> error + 'v list" where
  "convert_row convs r =
     (case json_iter r of Inl e \<Rightarrow> Inl e | Inr ys \<Rightarrow> convert_cells convs ys)"

text \<open>
  The loop that converts the rows in place: on an exception the rows before it are
  converted and the others are as the server sent them.
\<close>

fun convert_rows :: "'v converter list \<Rightarrow> json list \<Rightarrow> error option \<times> 'v row list" where
  "convert_rows convs [] = (None, [])"
| "convert_rows convs (r # rs) =
     (case convert_row convs r of
        Inl e \<Rightarrow> (Some e, Raw r # map Raw rs)
      | Inr t \<Rightarrow> (case convert_rows convs rs of (e, out) \<Rightarrow> (e, Tuple t # out)))"

text \<open>
  The value of \<open>out['results'][0]['rows']\<close> as the buffer: an array is the list of
  its rows; an empty object or an empty string is an empty buffer to everything a
  cursor does with it (it is false, of length 0, and the loop does not run).  Any other
  value is outside the protocol and the conversion loop fails on it; the model stops
  there with \<open>TypeError\<close> and an empty buffer.
\<close>

fun rows_list :: "json \<Rightarrow> error + json list" where
  "rows_list (JArr xs) = Inr xs"
| "rows_list (JObj []) = Inr []"
| "rows_list (JStr []) = Inr []"
| "rows_list v = Inl TypeError"

text \<open>The branch of \<open>execute\<close> for a query, after the reset.\<close>

definition load_query :: "'v env \<Rightarrow> json \<Rightarrow> 'v Cursor \<Rightarrow> (error + unit) \<times> 'v Cursor" where
  "load_query env out c =
     (let c1 = c\<lparr>description := Some []\<rparr> in
      case json_item out ''results'' of
        Inl e \<Rightarrow> (Inl e, c1)
      | Inr rs \<Rightarrow>
     (case json_first rs of
        Inl e \<Rightarrow> (Inl e, c1)
      | Inr r0 \<Rightarrow>
     (case json_get r0 ''columns'' (JArr []) of
        Inl e \<Rightarrow> (Inl e, c1)
      | Inr cols \<Rightarrow>
     (case json_iter cols of
        Inl e \<Rightarrow> (Inl e, c1)
      | Inr items \<Rightarrow>
     (case load_columns env items [] [] of
        (Some e, convs, ds) \<Rightarrow> (Inl e, c1\<lparr>description := Some ds\<rparr>)
      | (None, convs, ds) \<Rightarrow>
     (let c2 = c1\<lparr>description := Some ds\<rparr> in
      case json_item r0 ''rows'' of
        Inl e \<Rightarrow> (Inl e, c2)
      | Inr rws \<Rightarrow>
     (case rows_list rws of
        Inl e \<Rightarrow> (Inl e, c2)
      | Inr rl \<Rightarrow>
     (case convert_rows convs rl of
        (Some e, buf) \<Rightarrow> (Inl e, c2\<lparr>rows := buf\<rparr>)
      | (None, buf) \<Rightarrow>
          (Inr (), c2\<lparr>rows := buf, rowcount := JInt (int (length buf))\<rparr>)))))))))"

text \<open>
  The request body: \<open>sql\<close>, then \<open>args\<close> and \<open>database\<close> when given.  Parameters that are
  \<open>None\<close> are the omitted ones or a null handed over by \<open>executemany\<close>.
\<close>

definition request_data :: "ustr \<Rightarrow> json option \<Rightarrow> string option \<Rightarrow> (string \<times> json) list" where
  "request_data query params db =
     [(''sql'', JStr query)]
     @ (case params of None \<Rightarrow> [] | Some p \<Rightarrow> if p = JNull then [] else [(''args'', p)])
     @ (case db of None \<Rightarrow> [] | Some d \<Rightarrow> if d = [] then [] else [(''database'', JStr (uni d))])"

definition Cursor_execute ::
  "'v env \<Rightarrow> ustr \<Rightarrow> json option \<Rightarrow> 'v Cursor \<Rightarrow> world \<Rightarrow>
   (error + unit) \<times> 'v Cursor \<times> world" where
  "Cursor_execute env query params c w =
     (case connection c of
        None \<Rightarrow> (Inl closed_error, c, w)
      | Some a \<Rightarrow>
          (let d = request_data query params (database (conns w a));
               st = sql_type query
           in case (if st = ''query'' then Cursor_post env c ''query/tuples'' d w
                    else Cursor_post env c ''exec'' d w) of
                (Inl e, w') \<Rightarrow> (Inl e, c, w')
              | (Inr res, w') \<Rightarrow>
                  (if status_code res \<ge> 400 then (Inl (http_error res), c, w')
                   else
                     (case json_body res of
                        None \<Rightarrow> (Inl JSONDecodeError, c, w')
                      | Some out \<Rightarrow>
                          (let c0 = c\<lparr>description := None, rows := [], rowcount := JInt 0\<rparr>
                           in if st = ''query''
                              then (case load_query env out c0 of (r, c') \<Rightarrow> (r, c', w'))
                              else (case json_item out ''rowsAffected'' of
                                      Inl e \<Rightarrow> (Inl e, c0, w')
                                    | Inr n \<Rightarrow> (Inr (), c0\<lparr>rowcount := n\<rparr>, w')))))))"

subsection \<open>executemany\<close>

fun execute_each ::
  "'v env \<Rightarrow> ustr \<Rightarrow> json list \<Rightarrow> 'v Cursor \<Rightarrow> world \<Rightarrow> (error + unit) \<times> 'v Cursor \<times> world" where
  "execute_each env query [] c w = (Inr (), c, w)"
| "execute_each env query (params # ps) c w =
     (case Cursor_execute env query (Some params) c w of
        (Inl e, c', w') \<Rightarrow> (Inl e, c', w')
      | (Inr u, c', w') \<Rightarrow> execute_each env query ps c' w')"

definition Cursor_executemany ::
  "'v env \<Rightarrow> ustr \<Rightarrow> json list option \<Rightarrow> 'v Cursor \<Rightarrow> world \<Rightarrow>
   (error + unit) \<times> 'v Cursor \<times> world" where
  "Cursor_executemany env query param_seq c w =
     (case param_seq of
        Some (p # ps) \<Rightarrow> execute_each env query (p # ps) c w
      | _ \<Rightarrow> Cursor_execute env query None c w)"

subsection \<open>The fetch methods\<close>

definition Cursor_fetchone :: "'v Cursor \<Rightarrow> 'v row option \<times> 'v Cursor" where
  "Cursor_fetchone c =
     (case rows c of
        r # rs \<Rightarrow> (Some r, c\<lparr>rows := rs\<rparr>)
      | [] \<Rightarrow> (None, c\<lparr>description := None\<rparr>))"

text \<open>
  The test \<open>row is None\<close> of the two loops: \<open>fetchone\<close> returned the sentinel, or it popped
  a null that an \<open>execute\<close> failing in its conversions had left in the buffer.
\<close>

fun row_is_None :: "'v row option \<Rightarrow> bool" where
  "row_is_None None = True"
| "row_is_None (Some (Raw v)) = (v = JNull)"
| "row_is_None (Some (Tuple vs)) = False"

text \<open>
  The loop of \<open>fetchmany\<close>: \<open>while size > 0\<close>, with the rows collected so far
  (\<open>sz\<close> is the variable \<open>size\<close>).  Each
  turn that goes on has popped a row, so the buffer measures the loop.
\<close>

function fetchmany_loop :: "int \<Rightarrow> 'v row list \<Rightarrow> 'v Cursor \<Rightarrow> 'v row list \<times> 'v Cursor" where
  "fetchmany_loop sz out c =
     (if sz > 0 then
        (case Cursor_fetchone c of
           (r, c') \<Rightarrow> if row_is_None r then (out, c')
                      else fetchmany_loop sz (out @ [the r]) c')
      else (out, c))"
  by pat_completeness auto
termination
  by (relation "measure (\<lambda>(sz, out, c). length (rows c))")
     (auto simp: Cursor_fetchone_def split: list.splits)

declare fetchmany_loop.simps [simp del]

definition Cursor_fetchmany :: "int option \<Rightarrow> 'v Cursor \<Rightarrow> 'v row list \<times> 'v Cursor" where
  "Cursor_fetchmany sz c =
     (let sz' = (case sz of
                     None \<Rightarrow> arraysize c
                   | Some n \<Rightarrow> if n = 0 \<or> n \<le> 0 then arraysize c else n)
      in fetchmany_loop sz' [] c)"

function fetchall_loop :: "'v row list \<Rightarrow> 'v Cursor \<Rightarrow> 'v row list \<times> 'v Cursor" where
  "fetchall_loop out c =
     (case Cursor_fetchone c of
        (r, c') \<Rightarrow> if row_is_None r then (out, c')
                   else fetchall_loop (out @ [the r]) c')"
  by pat_completeness auto
termination
  by (relation "measure (\<lambda>(out, c). length (rows c))")
     (auto simp: Cursor_fetchone_def split: list.splits)

declare fetchall_loop.simps [simp del]

definition Cursor_fetchall :: "'v Cursor \<Rightarrow> 'v row list \<times> 'v Cursor" where
  "Cursor_fetchall c = fetchall_loop [] c"

text \<open>\<open>fetchone\<close> called \<open>n\<close> times in a row: what each call returned, and the cursor left.\<close>

fun fetchone_times :: "nat \<Rightarrow> 'v Cursor \<Rightarrow> 'v row option list \<times> 'v Cursor" where
  "fetchone_times 0 c = ([], c)"
| "fetchone_times (Suc n) c =
     (case Cursor_fetchone c of
        (r, c') \<Rightarrow> (case fetchone_times n c' of (rs, c'') \<Rightarrow> (r # rs, c'')))"
section \<open>The classification and the error token, in the words of the specification\<close>

text \<open>
  A statement begins with a keyword followed by whitespace: the code points of the
  keyword come first, each in a form that \<open>same\<close> accepts for the letter, and the next
  code point is whitespace.
\<close>

definition begins_with :: "(nat \<Rightarrow> nat \<Rightarrow> bool) \<Rightarrow> ustr \<Rightarrow> ustr \<Rightarrow> bool" where
  "begins_with same kw s =
     (list_all2 same kw (take (length kw) s)
      \<and> (case drop (length kw) s of [] \<Rightarrow> False | c # rest \<Rightarrow> uni_isspace c))"

text \<open>
  Following the specification: after stripping leading whitespace, the statement
  begins with \<open>select\<close> or \<open>show\<close>, case-insensitive, followed by whitespace.  A code point
  is a lower-case ASCII letter of a keyword, case-insensitive, when it is the letter
  or its capital, 32 below: these are the code points that \<open>str.lower\<close> maps to the
  letter, for every letter of the two keywords.
\<close>

definition letter_any_case :: "nat \<Rightarrow> nat \<Rightarrow> bool" where
  "letter_any_case lo ch = (ch = lo \<or> ch + 32 = lo)"

definition spec_query_type :: "ustr \<Rightarrow> bool" where
  "spec_query_type q =
     (begins_with letter_any_case (uni ''select'') (dropWhile uni_isspace q)
      \<or> begins_with letter_any_case (uni ''show'') (dropWhile uni_isspace q))"

text \<open>
  The same with one more form of the letter \<open>s\<close>: U+017F, the long s (code point 383).
\<close>

definition letter_or_long_s :: "nat \<Rightarrow> nat \<Rightarrow> bool" where
  "letter_or_long_s lo ch = (letter_any_case lo ch \<or> (lo = 115 \<and> ch = 383))"

definition query_type_long_s :: "ustr \<Rightarrow> bool" where
  "query_type_long_s q =
     (begins_with letter_or_long_s (uni ''select'') (dropWhile uni_isspace q)
      \<or> begins_with letter_or_long_s (uni ''show'') (dropWhile uni_isspace q))"


text \<open>
  Following the specification: the final whitespace-delimited token of a string, that
  is, trailing whitespace dropped, the characters from the last whitespace on.
\<close>

definition final_token :: "string \<Rightarrow> string" where
  "final_token s =
     rev (takeWhile (\<lambda>c. \<not> py_isspace c) (dropWhile py_isspace (rev s)))"

section \<open>A concrete server\<close>

text \<open>
  One connection with credentials, and a server that answers \<open>pong\<close> to a GET, a
  result set of two columns and two rows to one query, the error 1146 to another,
  and one affected row to every other statement.
\<close>

definition demo_conn :: Connection where
  "demo_conn =
     Connection_init (Some ''db.example'') (Some 8080) (Some ''admin'') None (Some ''shop'')
       ''https'' ''v1''"

definition demo_world :: world where
  "demo_world = \<lparr>conns = (\<lambda>a. demo_conn), sent = []\<rparr>"

definition demo_result :: json where
  "demo_result =
     JObj [(''results'',
       JArr [JObj
         [(''columns'',
             JArr [JObj [(''name'', JStr (uni ''id'')), (''dataType'', JStr (uni ''INT'')),
                         (''nullable'', JBool True)],
                   JObj [(''name'', JStr (uni ''qty'')), (''dataType'', JStr (uni ''INT''))]]),
          (''rows'', JArr [JArr [JInt 1, JInt 10], JArr [JInt 2, JInt 20]])]])]"

definition demo_error_text :: string where
  "demo_error_text = ''1146: Table 'x' doesn't exist''"

definition demo_server :: "Request list \<Rightarrow> Response option" where
  "demo_server log =
     (case rev log of
        [] \<Rightarrow> None
      | r # rs \<Rightarrow>
          if meth r = GET
          then Some \<lparr>status_code = 200, res_text = ''pong'', json_body = None\<rparr>
          else
            (case json_data r of
               None \<Rightarrow> None
             | Some d \<Rightarrow>
                 if map_of d ''sql'' = Some (JStr (uni ''select id, qty from stock''))
                 then Some \<lparr>status_code = 200, res_text = [], json_body = Some demo_result\<rparr>
                 else if map_of d ''sql'' = Some (JStr (uni ''select * from x''))
                 then Some \<lparr>status_code = 400, res_text = demo_error_text, json_body = None\<rparr>
                 else Some \<lparr>status_code = 200, res_text = [],
                            json_body = Some (JObj [(''rowsAffected'', JInt 1)])\<rparr>))"

definition demo_int :: "int converter" where
  "demo_int v = (case v of JInt n \<Rightarrow> Inr n | _ \<Rightarrow> Inl ValueError)"

definition demo_env :: "int env" where
  "demo_env =
     \<lparr>server = demo_server,
      urljoin = (\<lambda>base path. base @ path),
      get_name = (\<lambda>v. if v = JStr (uni ''INT'') then Inr ''INT'' else Inl KeyError),
      converters = map_of [(''INT'', demo_int)]\<rparr>"

text \<open>A cursor as a query has left it.\<close>

definition demo_cursor :: "int Cursor" where
  "demo_cursor =
     (new_cursor 0)
       \<lparr>rows := [Tuple [1, 10], Tuple [2, 20]],
        description := Some [(JStr (uni ''id''), ''INT'', None, None, None, None, JBool True, 0, 0),
                             (JStr (uni ''qty''), ''INT'', None, None, None, None, JBool False, 0, 0)],
        rowcount := JInt 2\<rparr>"

text \<open>The same environment, with a server that gives one fixed answer to every request.\<close>

definition answering :: "Response \<Rightarrow> int env" where
  "answering res = demo_env\<lparr>server := (\<lambda>log. Some res)\<rparr>"

section \<open>What the server returned, in the words of the specification\<close>

text \<open>
  The first result set of a response body (\<open>out['results'][0]\<close>), the columns it
  lists (none when the member is absent) and its rows.
\<close>

definition first_result :: "json \<Rightarrow> error + json" where
  "first_result out =
     (case json_item out ''results'' of Inl e \<Rightarrow> Inl e | Inr rs \<Rightarrow> json_first rs)"

definition server_columns :: "json \<Rightarrow> json list option" where
  "server_columns out =
     (case first_result out of
        Inl e \<Rightarrow> None
      | Inr r0 \<Rightarrow>
          (case json_get r0 ''columns'' (JArr []) of
             Inl e \<Rightarrow> None
           | Inr cols \<Rightarrow> (case json_iter cols of Inl e \<Rightarrow> None | Inr items \<Rightarrow> Some items)))"

definition server_rows :: "json \<Rightarrow> json list option" where
  "server_rows out =
     (case first_result out of
        Inl e \<Rightarrow> None
      | Inr r0 \<Rightarrow>
          (case json_item r0 ''rows'' of
             Inl e \<Rightarrow> None
           | Inr rws \<Rightarrow> (case rows_list rws of Inl e \<Rightarrow> None | Inr rl \<Rightarrow> Some rl)))"

text \<open>
  Following the specification: the descriptor of a column has nine fields, the
  name, the resolved type name, four unset fields, the nullable flag (false when
  absent) and two zeros; and the converter of a column is the entry of the registry
  under its resolved type name.
\<close>

definition spec_descriptor :: "'v env \<Rightarrow> json \<Rightarrow> descriptor option" where
  "spec_descriptor env item =
     (case json_item item ''name'' of
        Inl e \<Rightarrow> None
      | Inr nm \<Rightarrow>
          (case json_item item ''dataType'' of
             Inl e \<Rightarrow> None
           | Inr dt \<Rightarrow>
               (case get_name env dt of
                  Inl e \<Rightarrow> None
                | Inr ty \<Rightarrow>
                    Some (nm, ty, None, None, None, None,
                          (case json_get item ''nullable'' (JBool False) of
                             Inl e \<Rightarrow> JBool False
                           | Inr nl \<Rightarrow> nl),
                          0, 0))))"

definition spec_converter :: "'v env \<Rightarrow> json \<Rightarrow> 'v converter option" where
  "spec_converter env item =
     (case json_item item ''dataType'' of
        Inl e \<Rightarrow> None
      | Inr dt \<Rightarrow> (case get_name env dt of Inl e \<Rightarrow> None | Inr ty \<Rightarrow> converters env ty))"

section \<open>Strings of code points\<close>

lemma uni_eq_iff [simp]: "uni s = uni t \<longleftrightarrow> s = t"
  unfolding uni_def by (rule inj_map_eq_map) (rule inj_of_char)

section \<open>The matcher and the language of a pattern\<close>

lemma nullable_iff: "nullable r \<longleftrightarrow> [] \<in> lang r"
  by (induction r) (auto intro: star.star_nil)

lemma star_cons_split:
  "c # w \<in> star A \<longleftrightarrow> (\<exists>u v. w = u @ v \<and> c # u \<in> A \<and> v \<in> star A)"
proof
  assume "c # w \<in> star A"
  then show "\<exists>u v. w = u @ v \<and> c # u \<in> A \<and> v \<in> star A"
  proof (induction "c # w" rule: star.induct)
    case (star_app u v)
    show ?case
    proof (cases u)
      case Nil
      with star_app show ?thesis by simp
    next
      case (Cons a u')
      with star_app.hyps show ?thesis by auto
    qed
  qed
next
  assume "\<exists>u v. w = u @ v \<and> c # u \<in> A \<and> v \<in> star A"
  then obtain u v where "w = u @ v" "c # u \<in> A" "v \<in> star A" by blast
  then show "c # w \<in> star A"
    using star.star_app [of "c # u" A v] by simp
qed

lemma lang_deriv: "lang (deriv c r) = {w. c # w \<in> lang r}"
proof (induction r)
  case (Seq r s)
  have "\<And>w. w \<in> lang (deriv c (Seq r s)) \<longleftrightarrow> c # w \<in> lang (Seq r s)"
  proof -
    fix w
    have a: "c # w \<in> lang (Seq r s) \<longleftrightarrow>
          ([] \<in> lang r \<and> c # w \<in> lang s) \<or> (\<exists>u v. w = u @ v \<and> c # u \<in> lang r \<and> v \<in> lang s)"
      by (auto simp: Cons_eq_append_conv)
    have b: "w \<in> lang (deriv c (Seq r s)) \<longleftrightarrow>
          ([] \<in> lang r \<and> w \<in> lang (deriv c s)) \<or> (\<exists>u v. w = u @ v \<and> u \<in> lang (deriv c r) \<and> v \<in> lang s)"
      by (auto simp: nullable_iff)
    show "w \<in> lang (deriv c (Seq r s)) \<longleftrightarrow> c # w \<in> lang (Seq r s)"
      unfolding a b Seq by simp
  qed
  then show ?case by blast
next
  case (Star r)
  have "\<And>w. w \<in> lang (deriv c (Star r)) \<longleftrightarrow> c # w \<in> lang (Star r)"
    by (simp add: star_cons_split Star)
  then show ?case by blast
qed auto


lemma re_match_iff: "re_match r s \<longleftrightarrow> (\<exists>p q. s = p @ q \<and> p \<in> lang r)"
proof (induction s arbitrary: r)
  case Nil
  show ?case by (simp add: nullable_iff)
next
  case (Cons c cs)
  note IH = Cons.IH
  show ?case
  proof
    assume "re_match r (c # cs)"
    then consider "nullable r" | "re_match (deriv c r) cs" by auto
    then show "\<exists>p q. c # cs = p @ q \<and> p \<in> lang r"
    proof cases
      case 1
      then have "c # cs = [] @ (c # cs) \<and> [] \<in> lang r" by (simp add: nullable_iff)
      then show ?thesis by blast
    next
      case 2
      then obtain p q where "cs = p @ q" "p \<in> lang (deriv c r)" using IH by blast
      then have "c # cs = (c # p) @ q \<and> c # p \<in> lang r" by (simp add: lang_deriv)
      then show ?thesis by blast
    qed
  next
    assume "\<exists>p q. c # cs = p @ q \<and> p \<in> lang r"
    then obtain p q where pq: "c # cs = p @ q" "p \<in> lang r" by blast
    show "re_match r (c # cs)"
    proof (cases p)
      case Nil
      with pq have "[] \<in> lang r" by simp
      then show ?thesis by (simp add: nullable_iff)
    next
      case (Cons a p')
      with pq have "cs = p' @ q" "p' \<in> lang (deriv c r)" by (auto simp: lang_deriv)
      then have "re_match (deriv c r) cs" using IH by blast
      then show ?thesis by simp
    qed
  qed
qed

lemma star_space: "star {[c] | c. uni_isspace c} = {ws. list_all uni_isspace ws}"
proof (rule set_eqI, rule iffI)
  fix ws
  assume "ws \<in> star {[c] | c. uni_isspace c}"
  then show "ws \<in> {ws. list_all uni_isspace ws}"
    by (induction rule: star.induct) auto
next
  fix ws
  assume "ws \<in> {ws. list_all uni_isspace ws}"
  then have "list_all uni_isspace ws" by simp
  then show "ws \<in> star {[c] | c. uni_isspace c}"
  proof (induction ws)
    case Nil
    show ?case by (rule star.star_nil)
  next
    case (Cons a ws)
    then have "[a] \<in> {[c] | c. uni_isspace c}" "ws \<in> star {[c] | c. uni_isspace c}" by auto
    then have "[a] @ ws \<in> star {[c] | c. uni_isspace c}" by (rule star.star_app)
    then show ?case by simp
  qed
qed

lemma lang_atom_seq:
  "w \<in> lang (Seq (Atom p) r) \<longleftrightarrow> (\<exists>c v. w = c # v \<and> p c \<and> v \<in> lang r)"
proof
  assume "w \<in> lang (Seq (Atom p) r)"
  then obtain u v where "w = u @ v" "u \<in> lang (Atom p)" "v \<in> lang r" by auto
  moreover then obtain c where "u = [c]" "p c" by auto
  ultimately show "\<exists>c v. w = c # v \<and> p c \<and> v \<in> lang r" by simp
next
  assume "\<exists>c v. w = c # v \<and> p c \<and> v \<in> lang r"
  then obtain c v where w: "w = [c] @ v" and "p c" and v: "v \<in> lang r" by auto
  from \<open>p c\<close> have "[c] \<in> lang (Atom p)" by simp
  with w v have "\<exists>u v. w = u @ v \<and> u \<in> lang (Atom p) \<and> v \<in> lang r" by blast
  then show "w \<in> lang (Seq (Atom p) r)" by simp
qed


lemma lang_word_i: "lang (rx_word_i w) = {k. list_all2 ignorecase w k}"
proof (induction w)
  case Nil
  show ?case by simp
next
  case (Cons a w)
  have "\<And>k. k \<in> lang (rx_word_i (a # w)) \<longleftrightarrow> list_all2 ignorecase (a # w) k"
  proof -
    fix k
    have "k \<in> lang (rx_word_i (a # w)) \<longleftrightarrow>
          (\<exists>c v. k = c # v \<and> ignorecase a c \<and> v \<in> lang (rx_word_i w))"
      unfolding rx_word_i.simps rx_lit_i_def by (rule lang_atom_seq)
    also have "\<dots> \<longleftrightarrow> (\<exists>c v. k = c # v \<and> ignorecase a c \<and> list_all2 ignorecase w v)"
      unfolding Cons by simp
    also have "\<dots> \<longleftrightarrow> list_all2 ignorecase (a # w) k"
      by (simp add: list_all2_Cons1)
    finally show "k \<in> lang (rx_word_i (a # w)) \<longleftrightarrow> list_all2 ignorecase (a # w) k" .
  qed
  then show ?case by blast
qed

lemma uni_select: "uni ''select'' = [115, 101, 108, 101, 99, 116]"
  by (simp add: uni_def)

lemma uni_show: "uni ''show'' = [115, 104, 111, 119]"
  by (simp add: uni_def)

lemma ignorecase_s: "ignorecase 115 k \<longleftrightarrow> k = 115 \<or> k = 83 \<or> k = 383"
  by (simp add: ignorecase_def ignorecase_class_def)

lemma keyword_head:
  assumes "list_all2 ignorecase (uni ''select'') kw \<or> list_all2 ignorecase (uni ''show'') kw"
  shows "\<exists>k ks. kw = k # ks \<and> \<not> uni_isspace k"
proof -
  from assms obtain k ks where kw: "kw = k # ks" and low: "ignorecase 115 k"
    unfolding uni_select uni_show by (auto simp: list_all2_Cons1)
  from low have "\<not> uni_isspace k"
    unfolding ignorecase_s by (auto simp: uni_isspace_def)
  with kw show ?thesis by blast
qed

lemma lang_star_space: "ws \<in> lang (Star rx_space) \<longleftrightarrow> list_all uni_isspace ws"
  by (simp add: rx_space_def star_space)

lemma lang_plus_space:
  "sp \<in> lang (rx_plus rx_space) \<longleftrightarrow> (\<exists>c ws. sp = c # ws \<and> uni_isspace c \<and> list_all uni_isspace ws)"
proof -
  have "sp \<in> lang (rx_plus rx_space) \<longleftrightarrow>
        (\<exists>c v. sp = c # v \<and> uni_isspace c \<and> v \<in> lang (Star rx_space))"
    unfolding rx_plus_def by (subst (1) rx_space_def) (rule lang_atom_seq)
  then show ?thesis unfolding lang_star_space .
qed

lemma lang_keyword:
  "kw \<in> lang (Alt (rx_word_i (uni ''select'')) (rx_word_i (uni ''show''))) \<longleftrightarrow>
     (list_all2 ignorecase (uni ''select'') kw \<or> list_all2 ignorecase (uni ''show'') kw)"
proof -
  have "kw \<in> lang (Alt (rx_word_i (uni ''select'')) (rx_word_i (uni ''show''))) \<longleftrightarrow>
        kw \<in> lang (rx_word_i (uni ''select'')) \<or> kw \<in> lang (rx_word_i (uni ''show''))"
    by (simp only: lang.simps Un_iff)
  then show ?thesis
    unfolding lang_word_i mem_Collect_eq .
qed

lemma lang_seqI: "u \<in> lang r \<Longrightarrow> v \<in> lang s \<Longrightarrow> u @ v \<in> lang (Seq r s)"
  by auto

lemma lang_seqE:
  assumes "w \<in> lang (Seq r s)"
  obtains u v where "w = u @ v" "u \<in> lang r" "v \<in> lang s"
  using assms by auto

lemma lang_query_rxI:
  assumes "\<exists>ws kw c ws'. p = ws @ kw @ c # ws' \<and> list_all uni_isspace ws
        \<and> (list_all2 ignorecase (uni ''select'') kw \<or> list_all2 ignorecase (uni ''show'') kw)
        \<and> uni_isspace c \<and> list_all uni_isspace ws'"
  shows "p \<in> lang query_rx"
proof -
  from assms obtain ws kw c ws' where H: "p = ws @ kw @ c # ws' \<and> list_all uni_isspace ws
        \<and> (list_all2 ignorecase (uni ''select'') kw \<or> list_all2 ignorecase (uni ''show'') kw)
        \<and> uni_isspace c \<and> list_all uni_isspace ws'"
    by (elim exE)
  note p = H [THEN conjunct1]
  note ws = H [THEN conjunct2, THEN conjunct1]
  note kw = H [THEN conjunct2, THEN conjunct2, THEN conjunct1]
  note c = H [THEN conjunct2, THEN conjunct2, THEN conjunct2, THEN conjunct1]
  note ws' = H [THEN conjunct2, THEN conjunct2, THEN conjunct2, THEN conjunct2]
  from ws have 1: "ws \<in> lang (Star rx_space)" unfolding lang_star_space .
  from kw have 2: "kw \<in> lang (Alt (rx_word_i (uni ''select'')) (rx_word_i (uni ''show'')))"
    unfolding lang_keyword .
  from c ws' have "c # ws' = c # ws' \<and> uni_isspace c \<and> list_all uni_isspace ws'"
    by simp
  then have "\<exists>d ws. c # ws' = d # ws \<and> uni_isspace d \<and> list_all uni_isspace ws"
    by (intro exI)
  then have 3: "c # ws' \<in> lang (rx_plus rx_space)" unfolding lang_plus_space .
  from 2 3 have "kw @ c # ws' \<in> lang (Seq (Alt (rx_word_i (uni ''select'')) (rx_word_i (uni ''show''))) (rx_plus rx_space))"
    by (rule lang_seqI)
  with 1 have L: "ws @ kw @ c # ws' \<in> lang (Seq (Star rx_space)
       (Seq (Alt (rx_word_i (uni ''select'')) (rx_word_i (uni ''show''))) (rx_plus rx_space)))"
    by (rule lang_seqI)
  show "p \<in> lang query_rx" unfolding query_rx_def p by (rule L)
qed

lemma lang_query_rxD:
  assumes "p \<in> lang query_rx"
  shows "\<exists>ws kw c ws'. p = ws @ kw @ c # ws' \<and> list_all uni_isspace ws
        \<and> (list_all2 ignorecase (uni ''select'') kw \<or> list_all2 ignorecase (uni ''show'') kw)
        \<and> uni_isspace c \<and> list_all uni_isspace ws'"
proof -
  from assms have "p \<in> lang (Seq (Star rx_space)
       (Seq (Alt (rx_word_i (uni ''select'')) (rx_word_i (uni ''show''))) (rx_plus rx_space)))"
    unfolding query_rx_def .
  then obtain ws t where p: "p = ws @ t" and ws: "ws \<in> lang (Star rx_space)"
    and t: "t \<in> lang (Seq (Alt (rx_word_i (uni ''select'')) (rx_word_i (uni ''show''))) (rx_plus rx_space))"
    by (rule lang_seqE)
  from t obtain kw sp where t': "t = kw @ sp"
    and kw: "kw \<in> lang (Alt (rx_word_i (uni ''select'')) (rx_word_i (uni ''show'')))"
    and sp: "sp \<in> lang (rx_plus rx_space)"
    by (rule lang_seqE)
  from sp have "\<exists>c ws'. sp = c # ws' \<and> uni_isspace c \<and> list_all uni_isspace ws'"
    unfolding lang_plus_space .
  then obtain c ws' where S: "sp = c # ws' \<and> uni_isspace c \<and> list_all uni_isspace ws'"
    by (elim exE)
  note sp' = S [THEN conjunct1]
  note c = S [THEN conjunct2, THEN conjunct1]
  note ws' = S [THEN conjunct2, THEN conjunct2]
  from ws have wsp: "list_all uni_isspace ws" unfolding lang_star_space .
  from kw have kw': "list_all2 ignorecase (uni ''select'') kw \<or> list_all2 ignorecase (uni ''show'') kw"
    unfolding lang_keyword .
  have "p = ws @ kw @ c # ws'" unfolding p t' sp' ..
  with wsp kw' c ws' show ?thesis by (intro exI conjI)
qed

lemma lang_query_rx:
  "p \<in> lang query_rx \<longleftrightarrow>
     (\<exists>ws kw c ws'. p = ws @ kw @ c # ws' \<and> list_all uni_isspace ws
        \<and> (list_all2 ignorecase (uni ''select'') kw \<or> list_all2 ignorecase (uni ''show'') kw)
        \<and> uni_isspace c \<and> list_all uni_isspace ws')"
  using lang_query_rxI lang_query_rxD by (rule iffI [rotated])

lemma re_match_query_fwd:
  assumes "re_match query_rx q"
  shows "\<exists>kw c rest. dropWhile uni_isspace q = kw @ c # rest
        \<and> (list_all2 ignorecase (uni ''select'') kw \<or> list_all2 ignorecase (uni ''show'') kw) \<and> uni_isspace c"
proof -
  from assms have "\<exists>p r. q = p @ r \<and> p \<in> lang query_rx" unfolding re_match_iff .
  then obtain p r where Q: "q = p @ r \<and> p \<in> lang query_rx" by (elim exE)
  note q = Q [THEN conjunct1]
  from Q [THEN conjunct2]
  have "\<exists>ws kw c ws'. p = ws @ kw @ c # ws' \<and> list_all uni_isspace ws
        \<and> (list_all2 ignorecase (uni ''select'') kw \<or> list_all2 ignorecase (uni ''show'') kw)
        \<and> uni_isspace c \<and> list_all uni_isspace ws'" by (rule lang_query_rxD)
  then obtain ws kw c ws' where H: "p = ws @ kw @ c # ws' \<and> list_all uni_isspace ws
        \<and> (list_all2 ignorecase (uni ''select'') kw \<or> list_all2 ignorecase (uni ''show'') kw)
        \<and> uni_isspace c \<and> list_all uni_isspace ws'"
    by (elim exE)
  note p = H [THEN conjunct1]
  note ws = H [THEN conjunct2, THEN conjunct1]
  note kw = H [THEN conjunct2, THEN conjunct2, THEN conjunct1]
  note c = H [THEN conjunct2, THEN conjunct2, THEN conjunct2, THEN conjunct1]
  from keyword_head [OF kw] obtain k ks where k: "kw = k # ks" and nk: "\<not> uni_isspace k"
    by (elim exE conjE)
  from ws have "\<And>x. x \<in> set ws \<Longrightarrow> uni_isspace x" by (simp add: list_all_iff)
  then have "dropWhile uni_isspace (ws @ (kw @ c # ws' @ r)) = dropWhile uni_isspace (kw @ c # ws' @ r)"
    by (rule dropWhile_append2)
  also have "\<dots> = kw @ c # ws' @ r" unfolding k using nk by simp
  finally have "dropWhile uni_isspace (ws @ (kw @ c # ws' @ r)) = kw @ c # (ws' @ r)" .
  moreover have "q = ws @ (kw @ c # ws' @ r)" unfolding q p by simp
  ultimately have "dropWhile uni_isspace q = kw @ c # (ws' @ r)" by (simp only:)
  with kw c show ?thesis by (intro exI conjI)
qed

lemma re_match_query_bwd:
  assumes "\<exists>kw c rest. dropWhile uni_isspace q = kw @ c # rest
        \<and> (list_all2 ignorecase (uni ''select'') kw \<or> list_all2 ignorecase (uni ''show'') kw) \<and> uni_isspace c"
  shows "re_match query_rx q"
proof -
  from assms obtain kw c rest where H: "dropWhile uni_isspace q = kw @ c # rest
        \<and> (list_all2 ignorecase (uni ''select'') kw \<or> list_all2 ignorecase (uni ''show'') kw) \<and> uni_isspace c"
    by (elim exE)
  note d = H [THEN conjunct1]
  note kw = H [THEN conjunct2, THEN conjunct1]
  note c = H [THEN conjunct2, THEN conjunct2]
  have "q = takeWhile uni_isspace q @ dropWhile uni_isspace q" by simp
  then have q: "q = (takeWhile uni_isspace q @ kw @ c # []) @ rest" unfolding d by simp
  have tw: "list_all uni_isspace (takeWhile uni_isspace q)"
    unfolding list_all_iff by (blast dest: set_takeWhileD)
  have nil: "list_all uni_isspace []" by simp
  from tw kw c nil have "takeWhile uni_isspace q @ kw @ c # [] = takeWhile uni_isspace q @ kw @ c # []
        \<and> list_all uni_isspace (takeWhile uni_isspace q)
        \<and> (list_all2 ignorecase (uni ''select'') kw \<or> list_all2 ignorecase (uni ''show'') kw)
        \<and> uni_isspace c \<and> list_all uni_isspace []" by (intro conjI refl)
  then have "\<exists>ws kw' c' ws'. takeWhile uni_isspace q @ kw @ c # [] = ws @ kw' @ c' # ws'
        \<and> list_all uni_isspace ws
        \<and> (list_all2 ignorecase (uni ''select'') kw' \<or> list_all2 ignorecase (uni ''show'') kw')
        \<and> uni_isspace c' \<and> list_all uni_isspace ws'" by (intro exI)
  then have L: "takeWhile uni_isspace q @ kw @ c # [] \<in> lang query_rx" by (rule lang_query_rxI)
  from q L have "q = (takeWhile uni_isspace q @ kw @ c # []) @ rest \<and> takeWhile uni_isspace q @ kw @ c # [] \<in> lang query_rx"
    by (intro conjI)
  then have "\<exists>p r. q = p @ r \<and> p \<in> lang query_rx" by (intro exI)
  then show ?thesis unfolding re_match_iff .
qed

lemma re_match_query_rx:
  "re_match query_rx q \<longleftrightarrow>
     (\<exists>kw c rest. dropWhile uni_isspace q = kw @ c # rest
        \<and> (list_all2 ignorecase (uni ''select'') kw \<or> list_all2 ignorecase (uni ''show'') kw) \<and> uni_isspace c)"
  using re_match_query_bwd re_match_query_fwd by (rule iffI [rotated])

lemma begins_with_iff:
  "begins_with same kw s \<longleftrightarrow>
     (\<exists>k c rest. s = k @ c # rest \<and> list_all2 same kw k \<and> uni_isspace c)"
proof
  assume b: "begins_with same kw s"
  then obtain c rest where d: "drop (length kw) s = c # rest" and c: "uni_isspace c"
    by (auto simp: begins_with_def split: list.splits)
  have "s = take (length kw) s @ drop (length kw) s" by simp
  then have "s = take (length kw) s @ c # rest" unfolding d .
  moreover from b have "list_all2 same kw (take (length kw) s)" by (simp add: begins_with_def)
  ultimately show "\<exists>k c rest. s = k @ c # rest \<and> list_all2 same kw k \<and> uni_isspace c"
    using c by blast
next
  assume "\<exists>k c rest. s = k @ c # rest \<and> list_all2 same kw k \<and> uni_isspace c"
  then obtain k c rest where s: "s = k @ c # rest" and k: "list_all2 same kw k"
    and c: "uni_isspace c" by blast
  from k have len: "length kw = length k" by (rule list_all2_lengthD)
  show "begins_with same kw s"
    unfolding begins_with_def s len using k c by simp
qed

lemma begins_with_either:
  "begins_with same v s \<or> begins_with same w s \<longleftrightarrow>
     (\<exists>k c rest. s = k @ c # rest \<and> (list_all2 same v k \<or> list_all2 same w k) \<and> uni_isspace c)"
  unfolding begins_with_iff by blast

lemma keyword_letters:
  assumes "z \<in> set (uni ''select'') \<or> z \<in> set (uni ''show'')"
  shows "ignorecase z y = letter_or_long_s z y"
proof -
  from assms have "z \<in> {115, 101, 108, 99, 116, 104, 111, 119}"
    unfolding uni_select uni_show by auto
  then show ?thesis
    by (auto simp: ignorecase_def ignorecase_class_def letter_or_long_s_def letter_any_case_def)
qed

lemma select_letters:
  "list_all2 ignorecase (uni ''select'') k = list_all2 letter_or_long_s (uni ''select'') k"
  by (rule list.rel_cong) (simp_all add: keyword_letters)

lemma show_letters:
  "list_all2 ignorecase (uni ''show'') k = list_all2 letter_or_long_s (uni ''show'') k"
  by (rule list.rel_cong) (simp_all add: keyword_letters)

lemma re_match_query_long_s: "re_match query_rx q \<longleftrightarrow> query_type_long_s q"
  unfolding re_match_query_rx query_type_long_s_def begins_with_either
    select_letters show_letters ..
section \<open>The fetch loops\<close>

text \<open>
  A buffer that a successful \<open>execute\<close> filled holds tuples only; a null is what a
  failed conversion can leave there.
\<close>

lemma row_is_None_iff: "row_is_None r \<longleftrightarrow> r = None \<or> r = Some (Raw JNull)"
  by (cases r rule: row_is_None.cases) auto

lemma fetchall_loop_drains:
  "Raw JNull \<notin> set (rows c) \<Longrightarrow>
   fetchall_loop out c = (out @ rows c, c\<lparr>rows := [], description := None\<rparr>)"
proof (induction "rows c" arbitrary: out c)
  case Nil
  then show ?case
    by (subst fetchall_loop.simps) (simp add: Cursor_fetchone_def)
next
  case (Cons r rs)
  from Cons.hyps(2) have eq: "rows c = r # rs" by simp
  with Cons.prems have r: "r \<noteq> Raw JNull" and rs: "Raw JNull \<notin> set (rows (c\<lparr>rows := rs\<rparr>))"
    by auto
  have "rs = rows (c\<lparr>rows := rs\<rparr>)" by simp
  from Cons.hyps(1)[OF this rs, of "out @ [r]"] eq r show ?case
    by (subst fetchall_loop.simps) (simp add: Cursor_fetchone_def row_is_None_iff)
qed

lemma fetchmany_loop_drains:
  "0 < sz \<Longrightarrow> Raw JNull \<notin> set (rows c) \<Longrightarrow>
   fetchmany_loop sz out c = (out @ rows c, c\<lparr>rows := [], description := None\<rparr>)"
proof (induction "rows c" arbitrary: out c)
  case Nil
  then show ?case
    by (subst fetchmany_loop.simps) (simp add: Cursor_fetchone_def)
next
  case (Cons r rs)
  from Cons.hyps(2) have eq: "rows c = r # rs" by simp
  with Cons.prems have r: "r \<noteq> Raw JNull" and rs: "Raw JNull \<notin> set (rows (c\<lparr>rows := rs\<rparr>))"
    by auto
  have "rs = rows (c\<lparr>rows := rs\<rparr>)" by simp
  from Cons.hyps(1)[OF this Cons.prems(1) rs, of "out @ [r]"] eq r Cons.prems(1) show ?case
    by (subst fetchmany_loop.simps) (simp add: Cursor_fetchone_def row_is_None_iff)
qed

lemma fetchmany_loop_stop: "\<not> 0 < sz \<Longrightarrow> fetchmany_loop sz out c = (out, c)"
  by (subst fetchmany_loop.simps) simp

text \<open>
  What \<open>fetchmany\<close> does: with a positive size it returns every row of a buffer of
  converted rows, whatever the size; an omitted or non-positive size stands for
  \<open>arraysize\<close>.
\<close>

lemma fetchmany_positive_drains:
  "0 < n \<Longrightarrow> Raw JNull \<notin> set (rows c) \<Longrightarrow>
   Cursor_fetchmany (Some n) c = (rows c, c\<lparr>rows := [], description := None\<rparr>)"
  by (simp add: Cursor_fetchmany_def fetchmany_loop_drains)

lemma fetchmany_default_size:
  "Cursor_fetchmany None c = Cursor_fetchmany (Some (arraysize c)) c"
  and "n \<le> 0 \<Longrightarrow> Cursor_fetchmany (Some n) c = Cursor_fetchmany (Some (arraysize c)) c"
  by (simp_all add: Cursor_fetchmany_def)

text \<open>
  C1.  \<open>fetchmany(n)\<close> is documented to fetch \<open>size\<close> rows, that is
  \<open>min(n, remaining)\<close> of them.  The loop never counts \<open>size\<close> down: on a buffer of
  three rows \<open>fetchmany(1)\<close> returns all three and leaves the buffer empty.
\<close>

theorem fetchmany_ignores_size:
  "Cursor_fetchmany (Some 1)
     ((new_cursor 0 :: nat Cursor)\<lparr>rows := [Tuple [1], Tuple [2], Tuple [3]]\<rparr>)
   = ([Tuple [1], Tuple [2], Tuple [3]],
      (new_cursor 0)\<lparr>rows := [], description := None\<rparr>)"
  by (simp add: Cursor_fetchmany_def fetchmany_loop_drains new_cursor_def)

section \<open>Closing a cursor\<close>

text \<open>
  C9.  \<open>Cursor.close()\<close> changes the connection reference of the cursor and nothing
  else: every other field of the cursor and the whole world outside it (the
  \<open>Connection\<close> objects with their sessions, the requests sent) are as before.  It
  returns normally on every cursor, and closing again changes nothing.
\<close>

theorem Cursor_close_frame:
  "Cursor_close c w = (c\<lparr>connection := None\<rparr>, w) \<and>
   Cursor_close (fst (Cursor_close c w)) (snd (Cursor_close c w)) = Cursor_close c w"
  by (simp add: Cursor_close_def)

section \<open>execute: classification, dispatch and errors\<close>

lemma sql_type_long_s:
  "sql_type query = (if query_type_long_s query then ''query'' else ''exec'')"
  unfolding sql_type_def re_match_query_long_s ..


lemmas query_type_eval =
  query_type_long_s_def spec_query_type_def begins_with_def letter_or_long_s_def
  letter_any_case_def uni_isspace_def uni_def

lemma Cursor_post_open:
  assumes "connection c = Some a" and "sess (conns w a) = Some s"
  shows "Cursor_post env c path d w =
     (case server env (sent w @ [\<lparr>meth = POST, url = urljoin env (base_url (conns w a)) path,
                                   via = s, json_data = Some d\<rparr>]) of
        None \<Rightarrow> Inl TransportError
      | Some res \<Rightarrow> Inr res,
      w\<lparr>sent := sent w @ [\<lparr>meth = POST, url = urljoin env (base_url (conns w a)) path,
                             via = s, json_data = Some d\<rparr>]\<rparr>)"
  using assms by (simp add: Cursor_post_def Connection_post_def session_send_def Let_def)

lemma execute_world:
  assumes "connection c = Some a"
  shows "snd (snd (Cursor_execute env query params c w)) =
         snd (Cursor_post env c (if sql_type query = ''query'' then ''query/tuples'' else ''exec'')
                (request_data query params (database (conns w a))) w)"
proof -
  obtain r w' where post: "Cursor_post env c (if sql_type query = ''query'' then ''query/tuples'' else ''exec'')
                (request_data query params (database (conns w a))) w = (r, w')"
    by (cases "Cursor_post env c (if sql_type query = ''query'' then ''query/tuples'' else ''exec'')
                (request_data query params (database (conns w a))) w")
  show ?thesis
  proof (cases r)
    case (Inl e)
    with assms post show ?thesis
      by (simp add: Cursor_execute_def Let_def split: if_splits)
  next
    case (Inr res)
    with assms post show ?thesis
      by (simp add: Cursor_execute_def Let_def split: if_splits option.splits sum.splits prod.splits)
  qed
qed

lemma execute_error_response:
  assumes "connection c = Some a"
    and "Cursor_post env c (if sql_type query = ''query'' then ''query/tuples'' else ''exec'')
           (request_data query params (database (conns w a))) w = (Inr res, w')"
    and "status_code res \<ge> 400"
  shows "Cursor_execute env query params c w = (Inl (http_error res), c, w')"
  using assms by (simp add: Cursor_execute_def Let_def split: if_splits)

subsection \<open>The concrete server, evaluated\<close>

lemma port_8080: "py_str_int 8080 = ''8080''"
  by (simp add: py_str_int_def str_nat.simps digit_char_def)

lemma demo_conn_eval:
  "demo_conn =
     \<lparr>sess = Some \<lparr>auth = Some (''admin'', []),
                    headers = [(''Content-Type'', ''application/json''),
                               (''Accept'', ''application/json'')]\<rparr>,
      database = Some ''shop'',
      base_url = ''https://db.example:8080/api/v1/'',
      conn_messages = [],
      autocommit = True\<rparr>"
  by (simp add: demo_conn_def Connection_init_def port_8080)

lemma demo_world_conn: "conns demo_world a = demo_conn"
  and demo_world_sent: "sent demo_world = []"
  by (simp_all add: demo_world_def)

lemma demo_sess:
  "sess (conns demo_world a) =
     Some \<lparr>auth = Some (''admin'', []),
            headers = [(''Content-Type'', ''application/json''),
                       (''Accept'', ''application/json'')]\<rparr>"
  by (simp add: demo_world_conn demo_conn_eval)

lemma demo_cursor_conn: "connection demo_cursor = Some 0"
  by (simp add: demo_cursor_def new_cursor_def)


lemma select_x_is_query: "sql_type (uni ''select * from x'') = ''query''"
  by (simp add: sql_type_long_s query_type_eval)



lemma demo_post_error:
  "Cursor_post demo_env demo_cursor ''query/tuples''
     (request_data (uni ''select * from x'') None (database (conns demo_world 0))) demo_world =
   (Inr \<lparr>status_code = 400, res_text = demo_error_text, json_body = None\<rparr>,
    demo_world\<lparr>sent := [\<lparr>meth = POST, url = ''https://db.example:8080/api/v1/query/tuples'',
       via = \<lparr>auth = Some (''admin'', []),
               headers = [(''Content-Type'', ''application/json''),
                          (''Accept'', ''application/json'')]\<rparr>,
       json_data = Some [(''sql'', JStr (uni ''select * from x'')), (''database'', JStr (uni ''shop''))]\<rparr>]\<rparr>)"
  by (simp add: Cursor_post_open [OF demo_cursor_conn demo_sess]
       demo_world_conn demo_world_sent demo_conn_eval demo_env_def request_data_def demo_server_def)

lemma demo_error_parsed:
  "http_error \<lparr>status_code = 400, res_text = demo_error_text, json_body = None\<rparr> =
   InterfaceError 1146 ''Table 'x' doesn't exist''"
  by (simp add: http_error_def demo_error_text_def py_split_def py_int_def int_isspace_def py_strip_def
        parse_unsigned_def py_isspace_def is_digit_def digit_val_def)




text \<open>
  C6.  When the round trip of \<open>execute\<close> returns a response with a status of 400 or
  more, \<open>execute\<close> raises the error derived from it and the cursor is exactly as it was:
  description, buffer and row count (and everything else) are untouched.
\<close>

theorem execute_http_error_keeps_cursor:
  assumes "connection c = Some a"
    and "Cursor_post env c (if sql_type query = ''query'' then ''query/tuples'' else ''exec'')
           (request_data query params (database (conns w a))) w = (Inr res, w')"
    and "status_code res \<ge> 400"
  shows "Cursor_execute env query params c w = (Inl (http_error res), c, w')"
  using assms by (rule execute_error_response)

theorem execute_http_error_keeps_cursor_witness:
  "Cursor_execute demo_env (uni ''select * from x'') None demo_cursor demo_world =
     (Inl (InterfaceError 1146 ''Table 'x' doesn't exist''), demo_cursor,
      demo_world\<lparr>sent := [\<lparr>meth = POST, url = ''https://db.example:8080/api/v1/query/tuples'',
       via = \<lparr>auth = Some (''admin'', []),
               headers = [(''Content-Type'', ''application/json''),
                          (''Accept'', ''application/json'')]\<rparr>,
       json_data = Some [(''sql'', JStr (uni ''select * from x'')), (''database'', JStr (uni ''shop''))]\<rparr>]\<rparr>)"
proof -
  have p: "Cursor_post demo_env demo_cursor
             (if sql_type (uni ''select * from x'') = ''query'' then ''query/tuples'' else ''exec'')
             (request_data (uni ''select * from x'') None (database (conns demo_world 0))) demo_world =
           (Inr \<lparr>status_code = 400, res_text = demo_error_text, json_body = None\<rparr>,
            demo_world\<lparr>sent := [\<lparr>meth = POST, url = ''https://db.example:8080/api/v1/query/tuples'',
       via = \<lparr>auth = Some (''admin'', []),
               headers = [(''Content-Type'', ''application/json''),
                          (''Accept'', ''application/json'')]\<rparr>,
       json_data = Some [(''sql'', JStr (uni ''select * from x'')), (''database'', JStr (uni ''shop''))]\<rparr>]\<rparr>)"
    unfolding select_x_is_query using demo_post_error by simp
  have s: "status_code \<lparr>status_code = 400, res_text = demo_error_text, json_body = None\<rparr> \<ge> 400"
    by simp
  from execute_http_error_keeps_cursor [OF demo_cursor_conn p s] show ?thesis
    unfolding demo_error_parsed .
qed

section \<open>The error derived from a failed response\<close>

subsection \<open>The last token of \<open>split()\<close>\<close>

lemma split_ws_snoc_space:
  "py_isspace c \<Longrightarrow> split_ws cur (s @ [c]) = split_ws cur s"
  by (induction s arbitrary: cur) auto

lemma split_ws_nonempty:
  "cur \<noteq> [] \<or> (\<exists>x\<in>set s. \<not> py_isspace x) \<Longrightarrow> split_ws cur s \<noteq> []"
  by (induction s arbitrary: cur) auto

lemma split_ws_empty:
  "cur = [] \<Longrightarrow> \<forall>x\<in>set s. py_isspace x \<Longrightarrow> split_ws cur s = []"
  by (induction s arbitrary: cur) auto

lemma split_ws_snoc_char:
  assumes "\<not> py_isspace c"
  shows "split_ws cur (s @ [c]) =
     (if cur @ s \<noteq> [] \<and> \<not> py_isspace (last (cur @ s)) \<or> (s = [] \<and> cur \<noteq> [])
      then butlast (split_ws cur s) @ [last (split_ws cur s) @ [c]]
      else split_ws cur s @ [[c]])"
proof (induction s arbitrary: cur)
  case Nil
  show ?case using assms by simp
next
  case (Cons x xs)
  show ?case
  proof (cases "py_isspace x")
    case False
    then show ?thesis using Cons [of "cur @ [x]"] by simp
  next
    case True
    show ?thesis
    proof (cases "xs = []")
      case True
      with \<open>py_isspace x\<close> assms show ?thesis by simp
    next
      case False
      note xs = this
      show ?thesis
      proof (cases "py_isspace (last xs)")
        case True
        with xs \<open>py_isspace x\<close> Cons [of "[]"] show ?thesis by simp
      next
        case False
        with xs have "\<exists>y\<in>set xs. \<not> py_isspace y" using last_in_set by blast
        then have ne: "split_ws [] xs \<noteq> []" by (simp add: split_ws_nonempty)
        with False xs \<open>py_isspace x\<close> Cons [of "[]"] show ?thesis by simp
      qed
    qed
  qed
qed

lemma py_split_nonempty_iff: "py_split s \<noteq> [] \<longleftrightarrow> (\<exists>x\<in>set s. \<not> py_isspace x)"
  unfolding py_split_def using split_ws_nonempty [of "[]" s] split_ws_empty [of "[]" s] by auto

lemma final_token_snoc_space: "py_isspace c \<Longrightarrow> final_token (s @ [c]) = final_token s"
  by (simp add: final_token_def)

lemma final_token_snoc_char:
  "\<not> py_isspace c \<Longrightarrow>
   final_token (s @ [c]) = rev (takeWhile (\<lambda>c. \<not> py_isspace c) (rev s)) @ [c]"
  by (simp add: final_token_def)

lemma final_token_in_token:
  assumes "s \<noteq> []" and "\<not> py_isspace (last s)"
  shows "final_token s = rev (takeWhile (\<lambda>c. \<not> py_isspace c) (rev s))"
proof -
  from assms obtain y ys where "rev s = y # ys" "\<not> py_isspace y"
    by (cases "rev s") (auto simp: last_rev [symmetric] hd_rev)
  then show ?thesis by (simp add: final_token_def)
qed

lemma takeWhile_rev_after_space:
  assumes "s = [] \<or> py_isspace (last s)"
  shows "takeWhile (\<lambda>c. \<not> py_isspace c) (rev s) = []"
proof (cases "rev s")
  case Nil
  then show ?thesis by simp
next
  case (Cons y ys)
  then have "s \<noteq> []" by auto
  moreover from Cons have "last s = y" by (metis hd_rev list.sel(1))
  ultimately have "py_isspace y" using assms by auto
  with Cons show ?thesis by simp
qed

lemma last_py_split:
  "py_split s \<noteq> [] \<Longrightarrow> last (py_split s) = final_token s"
proof (induction s rule: rev_induct)
  case Nil
  then show ?case by (simp add: py_split_def)
next
  case (snoc c s)
  show ?case
  proof (cases "py_isspace c")
    case True
    with snoc show ?thesis
      by (simp add: py_split_def split_ws_snoc_space final_token_snoc_space)
  next
    case False
    note c = this
    show ?thesis
    proof (cases "s \<noteq> [] \<and> \<not> py_isspace (last s)")
      case True
      then have "\<exists>x\<in>set s. \<not> py_isspace x" using last_in_set by blast
      then have ne: "py_split s \<noteq> []" by (simp add: py_split_nonempty_iff)
      with snoc.IH have "last (py_split s) = final_token s" by simp
      also have "\<dots> = rev (takeWhile (\<lambda>c. \<not> py_isspace c) (rev s))"
        using True by (simp add: final_token_in_token)
      finally have l: "last (split_ws [] s) = rev (takeWhile (\<lambda>c. \<not> py_isspace c) (rev s))"
        by (simp add: py_split_def)
      from True c have "py_split (s @ [c])
          = butlast (split_ws [] s) @ [last (split_ws [] s) @ [c]]"
        by (simp add: py_split_def split_ws_snoc_char)
      then have "last (py_split (s @ [c])) = last (split_ws [] s) @ [c]" by simp
      with l c show ?thesis by (simp add: final_token_snoc_char)
    next
      case False
      then have e: "s = [] \<or> py_isspace (last s)" by auto
      from e c have "py_split (s @ [c]) = split_ws [] s @ [[c]]"
        by (auto simp: py_split_def split_ws_snoc_char)
      then have "last (py_split (s @ [c])) = [c]" by simp
      with c takeWhile_rev_after_space [OF e] show ?thesis
        by (simp add: final_token_snoc_char)
    qed
  qed
qed

lemma final_token_nonempty_iff: "final_token s \<noteq> [] \<longleftrightarrow> py_split s \<noteq> []"
proof
  assume "py_split s \<noteq> []"
  then have "last (py_split s) = final_token s" by (rule last_py_split)
  moreover have "[] \<notin> set (split_ws cur t)" if "cur = [] \<or> cur \<noteq> []" for cur t
    by (induction t arbitrary: cur) auto
  then have "[] \<notin> set (py_split s)" by (simp add: py_split_def)
  ultimately show "final_token s \<noteq> []" using \<open>py_split s \<noteq> []\<close> last_in_set by metis
next
  assume f: "final_token s \<noteq> []"
  show "py_split s \<noteq> []"
  proof
    assume "py_split s = []"
    then have "\<forall>x\<in>set s. py_isspace x" using py_split_nonempty_iff by blast
    then have "dropWhile py_isspace (rev s) = []" by simp
    with f show False by (simp add: final_token_def)
  qed
qed

subsection \<open>The derivation\<close>

lemma py_split1_first:
  "c \<notin> set pre \<Longrightarrow> py_split1 c (pre @ c # post) = [pre, post]"
  by (induction pre) auto

lemma http_error_empty:
  "res_text res = [] \<Longrightarrow> http_error res = InterfaceError (status_code res) ''HTTP Error''"
  by (simp add: http_error_def)

lemma http_error_no_colon:
  "res_text res \<noteq> [] \<Longrightarrow> CHR '':'' \<notin> set (res_text res) \<Longrightarrow>
   http_error res = InterfaceError (status_code res) (py_strip (res_text res))"
  by (simp add: http_error_def)

lemma http_error_colon:
  assumes "res_text res = pre @ CHR '':'' # post" and "CHR '':'' \<notin> set pre"
    and "py_split pre \<noteq> []" and "py_int (last (py_split pre)) = Some k"
  shows "http_error res = InterfaceError k (py_strip post)"
proof -
  from assms(3) obtain t ts where ts: "py_split pre = t # ts" by (cases "py_split pre") auto
  from assms(1,2) have "py_split1 (CHR '':'') (res_text res) = [pre, post]"
    by (simp add: py_split1_first)
  moreover from assms(1) have "CHR '':'' \<in> set (res_text res)" "res_text res \<noteq> []" by simp_all
  ultimately show ?thesis using ts assms(4)
    by (simp add: http_error_def)
qed

lemma py_int_empty: "py_int [] = None"
  by (simp add: py_int_def int_isspace_def py_strip_def)

lemma http_error_token:
  assumes "res_text res = pre @ CHR '':'' # post" and "CHR '':'' \<notin> set pre"
    and "py_int (final_token pre) = Some k"
  shows "http_error res = InterfaceError k (py_strip post)"
proof -
  from assms(3) have "final_token pre \<noteq> []" using py_int_empty by auto
  then have ne: "py_split pre \<noteq> []" by (simp add: final_token_nonempty_iff)
  then have "last (py_split pre) = final_token pre" by (rule last_py_split)
  with assms(3) have "py_int (last (py_split pre)) = Some k" by simp
  with assms(1,2) ne show ?thesis by (rule http_error_colon)
qed

lemma answering_post:
  "Cursor_post (answering res) demo_cursor path d demo_world =
     (Inr res,
      demo_world\<lparr>sent := [\<lparr>meth = POST, url = ''https://db.example:8080/api/v1/'' @ path,
        via = \<lparr>auth = Some (''admin'', []),
                headers = [(''Content-Type'', ''application/json''),
                           (''Accept'', ''application/json'')]\<rparr>,
        json_data = Some d\<rparr>]\<rparr>)"
  by (simp add: Cursor_post_open [OF demo_cursor_conn demo_sess] answering_def
       demo_world_conn demo_world_sent demo_conn_eval demo_env_def)

lemma answering_error:
  assumes "status_code res \<ge> 400"
  shows "fst (Cursor_execute (answering res) query params demo_cursor demo_world) =
         Inl (http_error res)"
proof -
  from execute_error_response [OF demo_cursor_conn answering_post assms]
  show ?thesis by simp
qed

text \<open>
  C3, as stated, fails.  A body without a colon gives the body trimmed as the message,
  not the full body: status 404 with the body \<open>Not Found\<close> and a line feed after it
  raises \<open>InterfaceError(404, "Not Found")\<close>, the line feed gone.  And a body whose
  part before the colon does not end in an integer raises no interface error at all:
  \<open>"Error: bad request"\<close> raises \<open>ValueError\<close>.
\<close>

theorem http_error_message_counterexample:
  "fst (Cursor_execute
          (answering \<lparr>status_code = 404, res_text = ''Not Found'' @ [CHR 0x0A], json_body = None\<rparr>)
          (uni ''select 1'') None demo_cursor demo_world)
     = Inl (InterfaceError 404 ''Not Found'') \<and>
   fst (Cursor_execute
          (answering \<lparr>status_code = 400, res_text = ''Error: bad request'', json_body = None\<rparr>)
          (uni ''select 1'') None demo_cursor demo_world)
     = Inl ValueError"
  by (simp add: answering_error http_error_def py_strip_def py_isspace_def py_split_def
        py_int_def int_isspace_def parse_unsigned_def is_digit_def)

text \<open>
  C3, amended.  For a response with a status of 400 or more \<open>execute\<close> raises: for an
  empty body \<open>InterfaceError(status, "HTTP Error")\<close>; for a body without a colon
  \<open>InterfaceError(status, body.strip())\<close>; and for a body with a colon, when \<open>int\<close>
  accepts the final whitespace-delimited token of the part before the first colon,
  \<open>InterfaceError\<close> with that integer and the trimmed remainder after the first colon.
\<close>

theorem execute_http_error_derivation:
  assumes "connection c = Some a"
    and "Cursor_post env c (if sql_type query = ''query'' then ''query/tuples'' else ''exec'')
           (request_data query params (database (conns w a))) w = (Inr res, w')"
    and "status_code res \<ge> 400"
  shows "\<exists>e. fst (Cursor_execute env query params c w) = Inl e \<and>
     (res_text res = [] \<longrightarrow> e = InterfaceError (status_code res) ''HTTP Error'') \<and>
     (res_text res \<noteq> [] \<and> CHR '':'' \<notin> set (res_text res) \<longrightarrow>
        e = InterfaceError (status_code res) (py_strip (res_text res))) \<and>
     (\<forall>pre post k.
        res_text res = pre @ CHR '':'' # post \<and> CHR '':'' \<notin> set pre \<and>
        py_int (final_token pre) = Some k \<longrightarrow>
        e = InterfaceError k (py_strip post))"
proof -
  from assms have "Cursor_execute env query params c w = (Inl (http_error res), c, w')"
    by (rule execute_error_response)
  then have "fst (Cursor_execute env query params c w) = Inl (http_error res)" by simp
  moreover have "res_text res = [] \<longrightarrow> http_error res = InterfaceError (status_code res) ''HTTP Error''"
    by (simp add: http_error_empty)
  moreover have "res_text res \<noteq> [] \<and> CHR '':'' \<notin> set (res_text res) \<longrightarrow>
        http_error res = InterfaceError (status_code res) (py_strip (res_text res))"
    by (simp add: http_error_no_colon)
  moreover have "\<forall>pre post k.
        res_text res = pre @ CHR '':'' # post \<and> CHR '':'' \<notin> set pre \<and>
        py_int (final_token pre) = Some k \<longrightarrow>
        http_error res = InterfaceError k (py_strip post)"
    using http_error_token by blast
  ultimately show ?thesis by blast
qed

theorem execute_http_error_derivation_witness:
  "fst (Cursor_execute demo_env (uni ''select * from x'') None demo_cursor demo_world) =
     Inl (InterfaceError 1146 ''Table 'x' doesn't exist'')"
proof -
  have p: "Cursor_post demo_env demo_cursor
             (if sql_type (uni ''select * from x'') = ''query'' then ''query/tuples'' else ''exec'')
             (request_data (uni ''select * from x'') None (database (conns demo_world 0))) demo_world =
           (Inr \<lparr>status_code = 400, res_text = demo_error_text, json_body = None\<rparr>,
            demo_world\<lparr>sent := [\<lparr>meth = POST, url = ''https://db.example:8080/api/v1/query/tuples'',
       via = \<lparr>auth = Some (''admin'', []),
               headers = [(''Content-Type'', ''application/json''),
                          (''Accept'', ''application/json'')]\<rparr>,
       json_data = Some [(''sql'', JStr (uni ''select * from x'')), (''database'', JStr (uni ''shop''))]\<rparr>]\<rparr>)"
    unfolding select_x_is_query using demo_post_error by simp
  have s: "status_code \<lparr>status_code = 400, res_text = demo_error_text, json_body = None\<rparr> \<ge> 400"
    by simp
  from execute_http_error_derivation [OF demo_cursor_conn p s]
  obtain e where e: "fst (Cursor_execute demo_env (uni ''select * from x'') None demo_cursor demo_world) = Inl e"
    and colon: "\<forall>pre post k.
        res_text \<lparr>status_code = 400, res_text = demo_error_text, json_body = None\<rparr>
          = pre @ CHR '':'' # post \<and> CHR '':'' \<notin> set pre \<and>
        py_int (final_token pre) = Some k \<longrightarrow>
        e = InterfaceError k (py_strip post)"
    by blast
  have "res_text \<lparr>status_code = 400, res_text = demo_error_text, json_body = None\<rparr>
          = ''1146'' @ CHR '':'' # '' Table 'x' doesn't exist'' \<and> CHR '':'' \<notin> set ''1146'' \<and>
        py_int (final_token ''1146'') = Some 1146"
    by (simp add: demo_error_text_def final_token_def py_isspace_def py_int_def int_isspace_def py_strip_def
          parse_unsigned_def is_digit_def digit_val_def)
  with colon have "e = InterfaceError 1146 (py_strip '' Table 'x' doesn't exist'')" by blast
  with e show ?thesis by (simp add: py_strip_def py_isspace_def)
qed

section \<open>Operations on a closed cursor or connection\<close>

lemma fetchmany_loop_closed:
  "fetchmany_loop sz out (c\<lparr>connection := None\<rparr>) =
     (fst (fetchmany_loop sz out c), (snd (fetchmany_loop sz out c))\<lparr>connection := None\<rparr>)"
proof (induction "rows c" arbitrary: out c)
  case Nil
  then have "rows c = []" by simp
  then show ?case
    by (subst (1 2 3) fetchmany_loop.simps) (simp add: Cursor_fetchone_def)
next
  case (Cons r rs)
  from Cons.hyps(2) have eq: "rows c = r # rs" by simp
  have "rs = rows (c\<lparr>rows := rs\<rparr>)" by simp
  then have ih: "fetchmany_loop sz (out @ [r]) ((c\<lparr>rows := rs\<rparr>)\<lparr>connection := None\<rparr>) =
      (fst (fetchmany_loop sz (out @ [r]) (c\<lparr>rows := rs\<rparr>)),
       (snd (fetchmany_loop sz (out @ [r]) (c\<lparr>rows := rs\<rparr>)))\<lparr>connection := None\<rparr>)"
    by (rule Cons.hyps(1))
  show ?case
  proof (cases "row_is_None (Some r) \<or> \<not> 0 < sz")
    case True
    with eq show ?thesis
      by (subst (1 2 3) fetchmany_loop.simps) (auto simp: Cursor_fetchone_def)
  next
    case False
    have sw: "(c\<lparr>connection := None\<rparr>)\<lparr>rows := rs\<rparr> = (c\<lparr>rows := rs\<rparr>)\<lparr>connection := None\<rparr>"
      by (cases c) simp
    from False eq have L: "fetchmany_loop sz out (c\<lparr>connection := None\<rparr>) =
        fetchmany_loop sz (out @ [r]) ((c\<lparr>connection := None\<rparr>)\<lparr>rows := rs\<rparr>)"
      by (subst fetchmany_loop.simps) (simp add: Cursor_fetchone_def)
    from False eq have R: "fetchmany_loop sz out c = fetchmany_loop sz (out @ [r]) (c\<lparr>rows := rs\<rparr>)"
      by (subst fetchmany_loop.simps) (simp add: Cursor_fetchone_def)
    show ?thesis unfolding L R sw by (rule ih)
  qed
qed

lemma fetchall_loop_closed:
  "fetchall_loop out (c\<lparr>connection := None\<rparr>) =
     (fst (fetchall_loop out c), (snd (fetchall_loop out c))\<lparr>connection := None\<rparr>)"
proof (induction "rows c" arbitrary: out c)
  case Nil
  then have "rows c = []" by simp
  then show ?case
    by (subst (1 2 3) fetchall_loop.simps) (simp add: Cursor_fetchone_def)
next
  case (Cons r rs)
  from Cons.hyps(2) have eq: "rows c = r # rs" by simp
  have "rs = rows (c\<lparr>rows := rs\<rparr>)" by simp
  then have ih: "fetchall_loop (out @ [r]) ((c\<lparr>rows := rs\<rparr>)\<lparr>connection := None\<rparr>) =
      (fst (fetchall_loop (out @ [r]) (c\<lparr>rows := rs\<rparr>)),
       (snd (fetchall_loop (out @ [r]) (c\<lparr>rows := rs\<rparr>)))\<lparr>connection := None\<rparr>)"
    by (rule Cons.hyps(1))
  show ?case
  proof (cases "row_is_None (Some r)")
    case True
    with eq show ?thesis
      by (subst (1 2 3) fetchall_loop.simps) (auto simp: Cursor_fetchone_def)
  next
    case False
    have sw: "(c\<lparr>connection := None\<rparr>)\<lparr>rows := rs\<rparr> = (c\<lparr>rows := rs\<rparr>)\<lparr>connection := None\<rparr>"
      by (cases c) simp
    from False eq have L: "fetchall_loop out (c\<lparr>connection := None\<rparr>) =
        fetchall_loop (out @ [r]) ((c\<lparr>connection := None\<rparr>)\<lparr>rows := rs\<rparr>)"
      by (subst fetchall_loop.simps) (simp add: Cursor_fetchone_def)
    from False eq have R: "fetchall_loop out c = fetchall_loop (out @ [r]) (c\<lparr>rows := rs\<rparr>)"
      by (subst fetchall_loop.simps) (simp add: Cursor_fetchone_def)
    show ?thesis unfolding L R sw by (rule ih)
  qed
qed

lemma fetchone_closed:
  "Cursor_fetchone (c\<lparr>connection := None\<rparr>) =
     (fst (Cursor_fetchone c), (snd (Cursor_fetchone c))\<lparr>connection := None\<rparr>)"
  by (simp add: Cursor_fetchone_def split: list.splits)

lemma fetchmany_closed:
  "Cursor_fetchmany sz (c\<lparr>connection := None\<rparr>) =
     (fst (Cursor_fetchmany sz c), (snd (Cursor_fetchmany sz c))\<lparr>connection := None\<rparr>)"
  by (simp add: Cursor_fetchmany_def Let_def fetchmany_loop_closed split: option.splits)

lemma fetchall_closed:
  "Cursor_fetchall (c\<lparr>connection := None\<rparr>) =
     (fst (Cursor_fetchall c), (snd (Cursor_fetchall c))\<lparr>connection := None\<rparr>)"
  by (simp add: Cursor_fetchall_def fetchall_loop_closed)

lemma Cursor_close_fst: "fst (Cursor_close c w) = c\<lparr>connection := None\<rparr>"
  by (simp add: Cursor_close_def)

lemma execute_closed_cursor:
  "connection c = None \<Longrightarrow>
   Cursor_execute env query params c w = (Inl (InterfaceError 0 ''connection is closed''), c, w)"
  by (simp add: Cursor_execute_def closed_error_def)

lemma execute_closed_connection:
  "connection c = Some a \<Longrightarrow> sess (conns w a) = None \<Longrightarrow>
   Cursor_execute env query params c w = (Inl (InterfaceError 0 ''connection is closed''), c, w)"
  by (simp add: Cursor_execute_def Cursor_post_def Connection_post_def closed_error_def Let_def)

lemma executemany_fails_with_execute:
  assumes "\<And>params. Cursor_execute env query params c w = (Inl e, c, w)"
  shows "Cursor_executemany env query param_seq c w = (Inl e, c, w)"
proof (cases param_seq)
  case None
  then show ?thesis by (simp add: Cursor_executemany_def assms)
next
  case (Some ps)
  then show ?thesis by (cases ps) (simp_all add: Cursor_executemany_def assms)
qed

text \<open>
  C2, as stated, fails: the fetch methods never look at the connection, and \<open>commit\<close>
  looks only at the autocommit flag.  On a closed cursor that still holds two rows
  \<open>fetchone\<close> returns the first row, and \<open>commit\<close> on a closed connection with
  autocommit returns normally.
\<close>

theorem closed_cursor_fetch_counterexample:
  "connection (fst (Cursor_close demo_cursor demo_world)) = None \<and>
   fst (Cursor_fetchone (fst (Cursor_close demo_cursor demo_world))) = Some (Tuple [1, 10]) \<and>
   sess (conns (Connection_close 0 demo_world) 0) = None \<and>
   Connection_commit 0 (Connection_close 0 demo_world) = Inr ()"
  by (simp add: Cursor_close_def Cursor_fetchone_def demo_cursor_def new_cursor_def
        Connection_commit_def Connection_close_def demo_world_def demo_conn_eval)

text \<open>
  C2, amended.  After \<open>close()\<close> on the cursor, or on its connection, every \<open>execute\<close>
  and \<open>executemany\<close> fails with \<open>InterfaceError(0, "connection is closed")\<close> and
  changes nothing.  The fetch methods return on a closed cursor what they return on the
  open one, and \<open>commit\<close> does after the close what it does before: nothing under
  autocommit, and \<open>NotSupportedError\<close> otherwise.
\<close>

theorem closed_resource_operations:
  "(connection c = None \<longrightarrow>
      Cursor_execute env query params c w
        = (Inl (InterfaceError 0 ''connection is closed''), c, w) \<and>
      Cursor_executemany env query param_seq c w
        = (Inl (InterfaceError 0 ''connection is closed''), c, w)) \<and>
   (connection c = Some a \<longrightarrow>
      Cursor_execute env query params c (Connection_close a w)
        = (Inl (InterfaceError 0 ''connection is closed''), c, Connection_close a w) \<and>
      Cursor_executemany env query param_seq c (Connection_close a w)
        = (Inl (InterfaceError 0 ''connection is closed''), c, Connection_close a w)) \<and>
   connection (fst (Cursor_close c w)) = None \<and>
   Cursor_fetchone (fst (Cursor_close c w))
     = (fst (Cursor_fetchone c), (snd (Cursor_fetchone c))\<lparr>connection := None\<rparr>) \<and>
   Cursor_fetchmany sz (fst (Cursor_close c w))
     = (fst (Cursor_fetchmany sz c), (snd (Cursor_fetchmany sz c))\<lparr>connection := None\<rparr>) \<and>
   Cursor_fetchall (fst (Cursor_close c w))
     = (fst (Cursor_fetchall c), (snd (Cursor_fetchall c))\<lparr>connection := None\<rparr>) \<and>
   Connection_commit a (Connection_close a w) = Connection_commit a w \<and>
   Connection_commit a w
     = (if autocommit (conns w a) then Inr ()
        else Inl (NotSupportedError 0 ''operation not supported''))"
proof (intro conjI impI)
  assume n: "connection c = None"
  show "Cursor_execute env query params c w
        = (Inl (InterfaceError 0 ''connection is closed''), c, w)"
    using n by (rule execute_closed_cursor)
  show "Cursor_executemany env query param_seq c w
        = (Inl (InterfaceError 0 ''connection is closed''), c, w)"
    by (rule executemany_fails_with_execute) (rule execute_closed_cursor [OF n])
next
  assume s: "connection c = Some a"
  have cl: "sess (conns (Connection_close a w) a) = None" by (simp add: Connection_close_def)
  show "Cursor_execute env query params c (Connection_close a w)
        = (Inl (InterfaceError 0 ''connection is closed''), c, Connection_close a w)"
    using s cl by (rule execute_closed_connection)
  show "Cursor_executemany env query param_seq c (Connection_close a w)
        = (Inl (InterfaceError 0 ''connection is closed''), c, Connection_close a w)"
    by (rule executemany_fails_with_execute) (rule execute_closed_connection [OF s cl])
next
  show "connection (fst (Cursor_close c w)) = None" by (simp add: Cursor_close_def)
  show "Cursor_fetchone (fst (Cursor_close c w))
     = (fst (Cursor_fetchone c), (snd (Cursor_fetchone c))\<lparr>connection := None\<rparr>)"
    unfolding Cursor_close_fst by (rule fetchone_closed)
  show "Cursor_fetchmany sz (fst (Cursor_close c w))
     = (fst (Cursor_fetchmany sz c), (snd (Cursor_fetchmany sz c))\<lparr>connection := None\<rparr>)"
    unfolding Cursor_close_fst by (rule fetchmany_closed)
  show "Cursor_fetchall (fst (Cursor_close c w))
     = (fst (Cursor_fetchall c), (snd (Cursor_fetchall c))\<lparr>connection := None\<rparr>)"
    unfolding Cursor_close_fst by (rule fetchall_closed)
  show "Connection_commit a (Connection_close a w) = Connection_commit a w"
    by (simp add: Connection_commit_def Connection_close_def)
  show "Connection_commit a w
     = (if autocommit (conns w a) then Inr ()
        else Inl (NotSupportedError 0 ''operation not supported''))"
    by (simp add: Connection_commit_def)
qed

theorem closed_resource_operations_witness:
  "Cursor_execute demo_env (uni ''select 1'') None (fst (Cursor_close demo_cursor demo_world)) demo_world
     = (Inl (InterfaceError 0 ''connection is closed''),
        fst (Cursor_close demo_cursor demo_world), demo_world) \<and>
   Cursor_execute demo_env (uni ''select 1'') None demo_cursor (Connection_close 0 demo_world)
     = (Inl (InterfaceError 0 ''connection is closed''), demo_cursor,
        Connection_close 0 demo_world)"
proof -
  have n: "connection (fst (Cursor_close demo_cursor demo_world)) = None"
    by (simp add: Cursor_close_def)
  from closed_resource_operations
         [of "fst (Cursor_close demo_cursor demo_world)" demo_env "uni ''select 1''" None demo_world
             None 0 None, THEN conjunct1, rule_format, OF n, THEN conjunct1]
  have 1: "Cursor_execute demo_env (uni ''select 1'') None (fst (Cursor_close demo_cursor demo_world))
             demo_world
           = (Inl (InterfaceError 0 ''connection is closed''),
              fst (Cursor_close demo_cursor demo_world), demo_world)" .
  from closed_resource_operations
         [of demo_cursor demo_env "uni ''select 1''" None demo_world None 0 None,
          THEN conjunct2, THEN conjunct1, rule_format, OF demo_cursor_conn, THEN conjunct1]
  have 2: "Cursor_execute demo_env (uni ''select 1'') None demo_cursor (Connection_close 0 demo_world)
           = (Inl (InterfaceError 0 ''connection is closed''), demo_cursor,
              Connection_close 0 demo_world)" .
  from 1 2 show ?thesis by (rule conjI)
qed

section \<open>The health check\<close>

lemma py_split_on_prefix:
  "c \<notin> set a \<Longrightarrow> py_split_on c (a @ c # rest) = a # py_split_on c rest"
  by (induction a) auto

lemma digit_char_digit: "d < 10 \<Longrightarrow> digit_char d \<in> set ''0123456789''"
  unfolding digit_char_def by (rule nth_mem) simp

lemma str_nat_digits: "c \<in> set (str_nat n) \<Longrightarrow> c \<in> set ''0123456789''"
proof (induction n arbitrary: c rule: str_nat.induct)
  case (1 n)
  show ?case
  proof (cases "n < 10")
    case True
    with "1.prems" have "c = digit_char n" by (subst (asm) str_nat.simps) simp
    with True show ?thesis by (simp only: digit_char_digit)
  next
    case False
    with "1.prems" have "c \<in> set (str_nat (n div 10)) \<or> c = digit_char (n mod 10)"
      by (subst (asm) str_nat.simps) auto
    then show ?thesis
    proof
      assume "c \<in> set (str_nat (n div 10))"
      with False show ?thesis by (rule "1.IH")
    next
      have "n mod 10 < 10" by simp
      then have "digit_char (n mod 10) \<in> set ''0123456789''" by (rule digit_char_digit)
      moreover assume "c = digit_char (n mod 10)"
      ultimately show ?thesis by (simp only:)
    qed
  qed
qed

lemma no_slash_in_str_int: "CHR ''/'' \<notin> set (py_str_int i)"
proof -
  have "CHR ''/'' \<notin> set ''0123456789''" by simp
  with str_nat_digits have "\<And>n. CHR ''/'' \<notin> set (str_nat n)" by blast
  then show ?thesis by (simp add: py_str_int_def)
qed

lemma ping_url_base:
  assumes "CHR ''/'' \<notin> set protocol" and "CHR ''/'' \<notin> set host"
  shows "ping_url (protocol @ ''://'' @ host @ '':'' @ py_str_int port @ ''/api/'' @ version @ ''/'')
         = protocol @ ''://'' @ host @ '':'' @ py_str_int port @ ''/ping''"
proof -
  let ?a = "protocol @ '':''" and ?b = "host @ '':'' @ py_str_int port"
  let ?rest = "''api/'' @ version @ ''/''"
  have a: "CHR ''/'' \<notin> set ?a" using assms(1) by simp
  have b: "CHR ''/'' \<notin> set ?b" using assms(2) no_slash_in_str_int by simp
  have "protocol @ ''://'' @ host @ '':'' @ py_str_int port @ ''/api/'' @ version @ ''/''
        = ?a @ CHR ''/'' # ([] @ CHR ''/'' # (?b @ CHR ''/'' # ?rest))" by simp
  then have "py_split_on (CHR ''/'') (protocol @ ''://'' @ host @ '':'' @ py_str_int port @ ''/api/'' @ version @ ''/'')
        = ?a # [] # ?b # py_split_on (CHR ''/'') ?rest"
    using py_split_on_prefix [OF a] py_split_on_prefix [OF b]
      py_split_on_prefix [of "CHR ''/''" "[]"] by simp
  then show ?thesis by (simp add: ping_url_def)
qed

lemma is_connected_closed:
  "sess (conns w a) = None \<Longrightarrow> Connection_is_connected env a w = (Inr False, w)"
  by (simp add: Connection_is_connected_def)

lemma is_connected_open:
  assumes "sess (conns w a) = Some s"
  shows "Connection_is_connected env a w =
     (case server env (sent w @ [\<lparr>meth = GET, url = ping_url (base_url (conns w a)),
                                   via = s, json_data = None\<rparr>]) of
        None \<Rightarrow> Inl TransportError
      | Some res \<Rightarrow> Inr (status_code res \<le> 400 \<and> res_text res = ''pong''),
      w\<lparr>sent := sent w @ [\<lparr>meth = GET, url = ping_url (base_url (conns w a)),
                             via = s, json_data = None\<rparr>]\<rparr>)"
  using assms
  by (simp add: Connection_is_connected_def session_send_def Let_def split: option.splits)

lemma is_connected_result:
  "fst (Connection_is_connected env a w) = Inl TransportError \<or>
   (\<exists>b. fst (Connection_is_connected env a w) = Inr b)"
  by (cases "sess (conns w a)")
     (auto simp: is_connected_closed is_connected_open split: option.splits)

lemma ping_result:
  "Connection_ping env a reconnect w =
     (case fst (Connection_is_connected env a w) of
        Inl e \<Rightarrow> Inl e
      | Inr b \<Rightarrow> if b then Inr ()
                 else Inl (InterfaceError 2006 ''Could not connect to SingleStore database''),
      snd (Connection_is_connected env a w))"
  by (simp add: Connection_ping_def split: prod.splits sum.splits)

lemma Connection_init_url:
  "base_url (Connection_init host port user password db protocol version) =
     protocol @ ''://''
     @ (case host of None \<Rightarrow> ''localhost'' | Some h \<Rightarrow> if h = [] then ''localhost'' else h)
     @ '':''
     @ py_str_int (case port of None \<Rightarrow> 3306 | Some p \<Rightarrow> if p = 0 then 3306 else p)
     @ ''/api/'' @ version @ ''/''"
  by (simp add: Connection_init_def Let_def)

text \<open>
  C8, as stated, fails on "unauthenticated": the probe is sent through the session of
  the connection, which carries the credentials given to the constructor.  For the
  connection of user \<open>admin\<close> the GET to \<open>/ping\<close> goes out with \<open>auth = (admin, "")\<close>.
\<close>

theorem is_connected_sends_credentials_counterexample:
  "sent (snd (Connection_is_connected demo_env 0 demo_world)) =
     [\<lparr>meth = GET, url = ''https://db.example:8080/ping'',
       via = \<lparr>auth = Some (''admin'', []),
               headers = [(''Content-Type'', ''application/json''),
                          (''Accept'', ''application/json'')]\<rparr>,
       json_data = None\<rparr>]"
proof -
  have "ping_url ''https://db.example:8080/api/v1/'' = ''https://db.example:8080/ping''"
    by (simp add: ping_url_def)
  then show ?thesis
    by (simp add: is_connected_open [OF demo_sess] demo_world_conn demo_world_sent demo_conn_eval)
qed

text \<open>
  C8, amended.  \<open>is_connected()\<close> on a closed connection returns false without a
  request.  On an open one it sends one GET through the session of the connection (so
  with the credentials and headers of the session) to \<open>scheme://host:port/ping\<close>, the
  base URL without the API path (for a scheme and a host without \<open>/\<close>), and returns
  true if and only if the status of the response is at most 400 and its text is
  \<open>pong\<close>; a failure of the transport propagates.  \<open>ping(reconnect)\<close> raises
  \<open>InterfaceError\<close> with code 2006 exactly when \<open>is_connected()\<close> returns false, and the
  flag \<open>reconnect\<close> changes nothing.
\<close>

theorem is_connected_and_ping:
  "(CHR ''/'' \<notin> set protocol \<and>
    CHR ''/'' \<notin> set (case host of None \<Rightarrow> ''localhost''
                      | Some h \<Rightarrow> if h = [] then ''localhost'' else h) \<longrightarrow>
      ping_url (base_url (Connection_init host port user password db protocol version)) =
        protocol @ ''://''
        @ (case host of None \<Rightarrow> ''localhost'' | Some h \<Rightarrow> if h = [] then ''localhost'' else h)
        @ '':''
        @ py_str_int (case port of None \<Rightarrow> 3306 | Some p \<Rightarrow> if p = 0 then 3306 else p)
        @ ''/ping'') \<and>
   (sess (conns w a) = None \<longrightarrow> Connection_is_connected env a w = (Inr False, w)) \<and>
   (sess (conns w a) = Some s \<longrightarrow>
      Connection_is_connected env a w =
        (case server env (sent w @ [\<lparr>meth = GET, url = ping_url (base_url (conns w a)),
                                      via = s, json_data = None\<rparr>]) of
           None \<Rightarrow> Inl TransportError
         | Some res \<Rightarrow> Inr (status_code res \<le> 400 \<and> res_text res = ''pong''),
         w\<lparr>sent := sent w @ [\<lparr>meth = GET, url = ping_url (base_url (conns w a)),
                                via = s, json_data = None\<rparr>]\<rparr>)) \<and>
   Connection_ping env a reconnect w =
     (case fst (Connection_is_connected env a w) of
        Inl e \<Rightarrow> Inl e
      | Inr b \<Rightarrow> if b then Inr ()
                 else Inl (InterfaceError 2006 ''Could not connect to SingleStore database''),
      snd (Connection_is_connected env a w)) \<and>
   (fst (Connection_ping env a reconnect w)
      = Inl (InterfaceError 2006 ''Could not connect to SingleStore database'')
    \<longleftrightarrow> fst (Connection_is_connected env a w) = Inr False) \<and>
   Connection_ping env a True w = Connection_ping env a False w"
proof (intro conjI impI)
  assume "CHR ''/'' \<notin> set protocol \<and>
    CHR ''/'' \<notin> set (case host of None \<Rightarrow> ''localhost''
                      | Some h \<Rightarrow> if h = [] then ''localhost'' else h)"
  then show "ping_url (base_url (Connection_init host port user password db protocol version)) =
        protocol @ ''://''
        @ (case host of None \<Rightarrow> ''localhost'' | Some h \<Rightarrow> if h = [] then ''localhost'' else h)
        @ '':''
        @ py_str_int (case port of None \<Rightarrow> 3306 | Some p \<Rightarrow> if p = 0 then 3306 else p)
        @ ''/ping''"
    unfolding Connection_init_url by (intro ping_url_base) simp_all
next
  assume "sess (conns w a) = None"
  then show "Connection_is_connected env a w = (Inr False, w)" by (rule is_connected_closed)
next
  assume "sess (conns w a) = Some s"
  then show "Connection_is_connected env a w =
        (case server env (sent w @ [\<lparr>meth = GET, url = ping_url (base_url (conns w a)),
                                      via = s, json_data = None\<rparr>]) of
           None \<Rightarrow> Inl TransportError
         | Some res \<Rightarrow> Inr (status_code res \<le> 400 \<and> res_text res = ''pong''),
         w\<lparr>sent := sent w @ [\<lparr>meth = GET, url = ping_url (base_url (conns w a)),
                                via = s, json_data = None\<rparr>]\<rparr>)"
    by (rule is_connected_open)
next
  show "Connection_ping env a reconnect w =
     (case fst (Connection_is_connected env a w) of
        Inl e \<Rightarrow> Inl e
      | Inr b \<Rightarrow> if b then Inr ()
                 else Inl (InterfaceError 2006 ''Could not connect to SingleStore database''),
      snd (Connection_is_connected env a w))"
    by (rule ping_result)
next
  show "fst (Connection_ping env a reconnect w)
      = Inl (InterfaceError 2006 ''Could not connect to SingleStore database'')
    \<longleftrightarrow> fst (Connection_is_connected env a w) = Inr False"
    using is_connected_result [of env a w] unfolding ping_result by auto
next
  show "Connection_ping env a True w = Connection_ping env a False w"
    unfolding ping_result ..
qed

theorem is_connected_and_ping_witness:
  "ping_url (base_url (Connection_init (Some ''db.example'') (Some 8080) (Some ''admin'') None
                        (Some ''shop'') ''https'' ''v1''))
     = ''https://db.example:8080/ping'' \<and>
   Connection_is_connected demo_env 0 (Connection_close 0 demo_world)
     = (Inr False, Connection_close 0 demo_world) \<and>
   fst (Connection_is_connected demo_env 0 demo_world) = Inr True"
proof -
  note t = is_connected_and_ping
  have h1: "CHR ''/'' \<notin> set ''https'' \<and>
            CHR ''/'' \<notin> set (case Some ''db.example'' of None \<Rightarrow> ''localhost''
                              | Some h \<Rightarrow> if h = [] then ''localhost'' else h)"
    by simp
  from t [THEN conjunct1, rule_format, OF h1]
  have 1: "ping_url (base_url (Connection_init (Some ''db.example'') (Some 8080) (Some ''admin'')
                        None (Some ''shop'') ''https'' ''v1''))
             = ''https://db.example:8080/ping''"
    by (simp add: port_8080)
  have h2: "sess (conns (Connection_close 0 demo_world) 0) = None"
    by (simp add: Connection_close_def)
  from is_connected_and_ping [where env = demo_env and a = 0
           and w = "Connection_close 0 demo_world",
         THEN conjunct2, THEN conjunct1, rule_format, OF h2]
  have 2: "Connection_is_connected demo_env 0 (Connection_close 0 demo_world)
             = (Inr False, Connection_close 0 demo_world)" .
  from is_connected_and_ping [where env = demo_env and a = 0 and w = demo_world,
         THEN conjunct2, THEN conjunct2, THEN conjunct1, rule_format, OF demo_sess]
  have 3: "fst (Connection_is_connected demo_env 0 demo_world) = Inr True"
    by (simp add: demo_world_sent demo_env_def demo_server_def)
  from 1 2 3 show ?thesis by (intro conjI)
qed

section \<open>The state after a successful execute\<close>

lemma load_columns_success:
  "load_columns env items convs ds = (None, convs', ds') \<Longrightarrow>
   \<exists>cs new. convs' = convs @ cs \<and> ds' = ds @ new \<and>
     map (spec_converter env) items = map Some cs \<and>
     map (spec_descriptor env) items = map Some new"
proof (induction items arbitrary: convs ds)
  case Nil
  then show ?case by simp
next
  case (Cons item items)
  from Cons.prems obtain dt ty cv nm nl where
    dt: "json_item item ''dataType'' = Inr dt" and ty: "get_name env dt = Inr ty"
    and cv: "converters env ty = Some cv" and nm: "json_item item ''name'' = Inr nm"
    and nl: "json_get item ''nullable'' (JBool False) = Inr nl"
    and rest: "load_columns env items (convs @ [cv])
                 (ds @ [(nm, ty, None, None, None, None, nl, 0, 0)]) = (None, convs', ds')"
    by (auto split: sum.splits option.splits)
  from Cons.IH [OF rest] obtain cs new where
    1: "convs' = (convs @ [cv]) @ cs"
    and 2: "ds' = (ds @ [(nm, ty, None, None, None, None, nl, 0, 0)]) @ new"
    and 3: "map (spec_converter env) items = map Some cs"
    and 4: "map (spec_descriptor env) items = map Some new" by blast
  have c: "spec_converter env item = Some cv"
    by (simp add: spec_converter_def dt ty cv)
  have d: "spec_descriptor env item = Some (nm, ty, None, None, None, None, nl, 0, 0)"
    by (simp add: spec_descriptor_def dt ty nm nl)
  from 1 2 3 4 c d have "convs' = convs @ (cv # cs) \<and>
      ds' = ds @ ((nm, ty, None, None, None, None, nl, 0, 0) # new) \<and>
      map (spec_converter env) (item # items) = map Some (cv # cs) \<and>
      map (spec_descriptor env) (item # items)
        = map Some ((nm, ty, None, None, None, None, nl, 0, 0) # new)" by simp
  then show ?case by blast
qed

lemma convert_rows_success:
  "convert_rows convs raw = (None, buf) \<Longrightarrow>
   \<exists>ts. map (convert_row convs) raw = map Inr ts \<and> buf = map Tuple ts"
proof (induction raw arbitrary: buf)
  case Nil
  then show ?case by simp
next
  case (Cons r rs)
  from Cons.prems obtain t out where t: "convert_row convs r = Inr t"
    and rest: "convert_rows convs rs = (None, out)" and buf: "buf = Tuple t # out"
    by (auto split: sum.splits prod.splits)
  from Cons.IH [OF rest] obtain ts where "map (convert_row convs) rs = map Inr ts"
    "out = map Tuple ts" by blast
  with t buf have "map (convert_row convs) (r # rs) = map Inr (t # ts) \<and> buf = map Tuple (t # ts)"
    by simp
  then show ?case by blast
qed

lemma load_query_success:
  assumes "load_query env out c0 = (Inr (), c')"
  shows "\<exists>cols raw convs ds ts.
     server_columns out = Some cols \<and> server_rows out = Some raw \<and>
     map (spec_converter env) cols = map Some convs \<and>
     map (spec_descriptor env) cols = map Some ds \<and>
     map (convert_row convs) raw = map Inr ts \<and>
     c' = c0\<lparr>description := Some ds, rows := map Tuple ts,
             rowcount := JInt (int (length raw))\<rparr>"
proof -
  from assms obtain rs r0 cols items convs ds rws rl buf where
    rs: "json_item out ''results'' = Inr rs" and r0: "json_first rs = Inr r0"
    and cols: "json_get r0 ''columns'' (JArr []) = Inr cols"
    and items: "json_iter cols = Inr items"
    and lc: "load_columns env items [] [] = (None, convs, ds)"
    and rws: "json_item r0 ''rows'' = Inr rws" and rl: "rows_list rws = Inr rl"
    and cr: "convert_rows convs rl = (None, buf)"
    and c': "c' = c0\<lparr>description := Some [], description := Some ds, rows := buf,
                     rowcount := JInt (int (length buf))\<rparr>"
    unfolding load_query_def Let_def
    by (auto split: sum.splits prod.splits option.splits)
  from load_columns_success [OF lc] have
    sc: "map (spec_converter env) items = map Some convs"
    and sd: "map (spec_descriptor env) items = map Some ds" by auto
  from convert_rows_success [OF cr] obtain ts where
    ts: "map (convert_row convs) rl = map Inr ts" and buf: "buf = map Tuple ts" by blast
  from ts have len: "length rl = length ts" by (metis length_map)
  have 1: "server_columns out = Some items"
    by (simp add: server_columns_def first_result_def rs r0 cols items)
  have 2: "server_rows out = Some rl"
    by (simp add: server_rows_def first_result_def rs r0 rws rl)
  from c' buf len have "c' = c0\<lparr>description := Some ds, rows := map Tuple ts,
             rowcount := JInt (int (length rl))\<rparr>" by simp
  with 1 2 sc sd ts show ?thesis by blast
qed

lemma execute_success:
  assumes "Cursor_execute env query params c w = (Inr (), c', w')"
  shows "\<exists>res out. server env (sent w') = Some res \<and> status_code res < 400 \<and>
           json_body res = Some out \<and>
           (if sql_type query = ''query''
            then load_query env out (c\<lparr>description := None, rows := [], rowcount := JInt 0\<rparr>)
                   = (Inr (), c')
            else \<exists>n. json_item out ''rowsAffected'' = Inr n \<and>
                   c' = c\<lparr>description := None, rows := [], rowcount := n\<rparr>)"
proof -
  from assms obtain a where a: "connection c = Some a"
    by (cases "connection c") (auto simp: Cursor_execute_def)
  from assms a obtain s where s: "sess (conns w a) = Some s"
    by (cases "sess (conns w a)")
       (auto simp: Cursor_execute_def Cursor_post_def Connection_post_def Let_def split: if_splits)
  let ?rq = "\<lparr>meth = POST,
              url = urljoin env (base_url (conns w a))
                      (if sql_type query = ''query'' then ''query/tuples'' else ''exec''),
              via = s,
              json_data = Some (request_data query params (database (conns w a)))\<rparr>"
  have post: "Cursor_post env c (if sql_type query = ''query'' then ''query/tuples'' else ''exec'')
           (request_data query params (database (conns w a))) w =
        (case server env (sent w @ [?rq]) of None \<Rightarrow> Inl TransportError | Some res \<Rightarrow> Inr res,
         w\<lparr>sent := sent w @ [?rq]\<rparr>)"
    by (rule Cursor_post_open [OF a s])
  from execute_world [OF a, of env query params w] assms post
  have w': "w' = w\<lparr>sent := sent w @ [?rq]\<rparr>" by simp
  from assms a post obtain res where res: "server env (sent w @ [?rq]) = Some res"
    by (cases "server env (sent w @ [?rq])")
       (auto simp: Cursor_execute_def Let_def split: if_splits)
  from assms a post res have st: "status_code res < 400"
    by (auto simp: Cursor_execute_def Let_def split: if_splits)
  from assms a post res st obtain out where out: "json_body res = Some out"
    by (cases "json_body res") (auto simp: Cursor_execute_def Let_def split: if_splits)
  have br: "if sql_type query = ''query''
            then load_query env out (c\<lparr>description := None, rows := [], rowcount := JInt 0\<rparr>)
                   = (Inr (), c')
            else \<exists>n. json_item out ''rowsAffected'' = Inr n \<and>
                   c' = c\<lparr>description := None, rows := [], rowcount := n\<rparr>"
    using assms a post res st out
    by (auto simp: Cursor_execute_def Let_def split: if_splits sum.splits prod.splits)
  from res w' have "server env (sent w') = Some res" by simp
  with st out br show ?thesis by blast
qed


subsection \<open>The concrete query, evaluated\<close>

lemma demo_query_post:
  "Cursor_post demo_env (new_cursor 0) ''query/tuples''
     [(''sql'', JStr (uni ''select id, qty from stock'')), (''database'', JStr (uni ''shop''))] demo_world =
   (Inr \<lparr>status_code = 200, res_text = [], json_body = Some demo_result\<rparr>,
    demo_world\<lparr>sent := [\<lparr>meth = POST, url = ''https://db.example:8080/api/v1/query/tuples'',
       via = \<lparr>auth = Some (''admin'', []),
               headers = [(''Content-Type'', ''application/json''),
                          (''Accept'', ''application/json'')]\<rparr>,
       json_data = Some [(''sql'', JStr (uni ''select id, qty from stock'')),
                         (''database'', JStr (uni ''shop''))]\<rparr>]\<rparr>)"
proof -
  have c: "connection (new_cursor 0 :: int Cursor) = Some 0" by (simp add: new_cursor_def)
  show ?thesis
    by (simp add: Cursor_post_open [OF c demo_sess]
         demo_world_conn demo_world_sent demo_conn_eval demo_env_def demo_server_def)
qed

lemma demo_load_query:
  "load_query demo_env demo_result
     ((new_cursor 0)\<lparr>description := None, rows := [], rowcount := JInt 0\<rparr>)
   = (Inr (), demo_cursor)"
  by (simp add: load_query_def demo_result_def demo_env_def demo_cursor_def new_cursor_def
        convert_row_def demo_int_def)

lemma demo_execute_query:
  "Cursor_execute demo_env (uni ''select id, qty from stock'') None (new_cursor 0) demo_world =
   (Inr (), demo_cursor,
    demo_world\<lparr>sent := [\<lparr>meth = POST, url = ''https://db.example:8080/api/v1/query/tuples'',
       via = \<lparr>auth = Some (''admin'', []),
               headers = [(''Content-Type'', ''application/json''),
                          (''Accept'', ''application/json'')]\<rparr>,
       json_data = Some [(''sql'', JStr (uni ''select id, qty from stock'')),
                         (''database'', JStr (uni ''shop''))]\<rparr>]\<rparr>)"
proof -
  have q: "sql_type (uni ''select id, qty from stock'') = ''query''"
    by (simp add: sql_type_long_s query_type_eval)
  have c: "connection (new_cursor 0 :: int Cursor) = Some 0" by (simp add: new_cursor_def)
  have d: "request_data (uni ''select id, qty from stock'') None (database (conns demo_world 0))
           = [(''sql'', JStr (uni ''select id, qty from stock'')), (''database'', JStr (uni ''shop''))]"
    by (simp add: request_data_def demo_world_conn demo_conn_eval)
  show ?thesis
    by (simp add: Cursor_execute_def c q d Let_def demo_query_post demo_load_query)
qed

lemma demo_query_type: "sql_type (uni ''select id, qty from stock'') = ''query''"
  by (simp add: sql_type_long_s query_type_eval)

lemma demo_server_answer:
  "server demo_env
     (sent (demo_world\<lparr>sent := [\<lparr>meth = POST, url = ''https://db.example:8080/api/v1/query/tuples'',
       via = \<lparr>auth = Some (''admin'', []),
               headers = [(''Content-Type'', ''application/json''),
                          (''Accept'', ''application/json'')]\<rparr>,
       json_data = Some [(''sql'', JStr (uni ''select id, qty from stock'')),
                         (''database'', JStr (uni ''shop''))]\<rparr>]\<rparr>))
   = Some \<lparr>status_code = 200, res_text = [], json_body = Some demo_result\<rparr>"
  by (simp add: demo_env_def demo_server_def)

lemma demo_server_columns:
  "server_columns demo_result =
     Some [JObj [(''name'', JStr (uni ''id'')), (''dataType'', JStr (uni ''INT'')), (''nullable'', JBool True)],
           JObj [(''name'', JStr (uni ''qty'')), (''dataType'', JStr (uni ''INT''))]]"
  by (simp add: server_columns_def first_result_def demo_result_def)

lemma demo_server_rows:
  "server_rows demo_result = Some [JArr [JInt 1, JInt 10], JArr [JInt 2, JInt 20]]"
  by (simp add: server_rows_def first_result_def demo_result_def)


text \<open>
  C7.  After a successful \<open>execute\<close> the response has a body \<open>out\<close>.  For a query the
  row count is the number of rows of the first result set, the buffer has as many
  rows, and the description has one descriptor per returned column, each the nine
  fields (name, resolved type name, four unset fields, nullable flag defaulting to
  false, two zeros).  For any other statement the row count is the member
  \<open>rowsAffected\<close> of the body, the description is absent and the buffer is empty.
\<close>

theorem execute_result_state:
  assumes "Cursor_execute env query params c w = (Inr (), c', w')"
  shows "\<exists>res out. server env (sent w') = Some res \<and> json_body res = Some out \<and>
     (if sql_type query = ''query'' then
        (\<exists>cols raw ds.
           server_columns out = Some cols \<and> server_rows out = Some raw \<and>
           rowcount c' = JInt (int (length raw)) \<and> length (rows c') = length raw \<and>
           description c' = Some ds \<and> length ds = length cols \<and>
           map (spec_descriptor env) cols = map Some ds)
      else json_item out ''rowsAffected'' = Inr (rowcount c') \<and>
           description c' = None \<and> rows c' = [])"
proof -
  from execute_success [OF assms] obtain res out where
    res: "server env (sent w') = Some res" and out: "json_body res = Some out"
    and br: "if sql_type query = ''query''
            then load_query env out (c\<lparr>description := None, rows := [], rowcount := JInt 0\<rparr>)
                   = (Inr (), c')
            else \<exists>n. json_item out ''rowsAffected'' = Inr n \<and>
                   c' = c\<lparr>description := None, rows := [], rowcount := n\<rparr>"
    by blast
  have "if sql_type query = ''query'' then
        (\<exists>cols raw ds.
           server_columns out = Some cols \<and> server_rows out = Some raw \<and>
           rowcount c' = JInt (int (length raw)) \<and> length (rows c') = length raw \<and>
           description c' = Some ds \<and> length ds = length cols \<and>
           map (spec_descriptor env) cols = map Some ds)
      else json_item out ''rowsAffected'' = Inr (rowcount c') \<and>
           description c' = None \<and> rows c' = []"
  proof (cases "sql_type query = ''query''")
    case True
    with br have "load_query env out (c\<lparr>description := None, rows := [], rowcount := JInt 0\<rparr>)
                   = (Inr (), c')" by simp
    from load_query_success [OF this] obtain cols raw convs ds ts where
      1: "server_columns out = Some cols" and 2: "server_rows out = Some raw"
      and 3: "map (spec_descriptor env) cols = map Some ds"
      and 4: "map (convert_row convs) raw = map Inr ts"
      and 5: "c' = c\<lparr>description := None, rows := [], rowcount := JInt 0,
                      description := Some ds, rows := map Tuple ts,
                      rowcount := JInt (int (length raw))\<rparr>" by blast
    from 3 have l3: "length ds = length cols" by (metis length_map)
    from 4 have l4: "length ts = length raw" by (metis length_map)
    from 5 l4 have "rowcount c' = JInt (int (length raw)) \<and> length (rows c') = length raw \<and>
           description c' = Some ds" by simp
    with 1 2 3 l3 True show ?thesis by auto
  next
    case False
    with br show ?thesis by auto
  qed
  with res out show ?thesis by blast
qed

theorem execute_result_state_witness:
  "rowcount demo_cursor = JInt 2 \<and> length (rows demo_cursor) = 2 \<and>
   description demo_cursor =
     Some [(JStr (uni ''id''), ''INT'', None, None, None, None, JBool True, 0, 0),
           (JStr (uni ''qty''), ''INT'', None, None, None, None, JBool False, 0, 0)]"
proof -
  from execute_result_state [OF demo_execute_query] obtain res out where
    res: "server demo_env
     (sent (demo_world\<lparr>sent := [\<lparr>meth = POST, url = ''https://db.example:8080/api/v1/query/tuples'',
       via = \<lparr>auth = Some (''admin'', []),
               headers = [(''Content-Type'', ''application/json''),
                          (''Accept'', ''application/json'')]\<rparr>,
       json_data = Some [(''sql'', JStr (uni ''select id, qty from stock'')),
                         (''database'', JStr (uni ''shop''))]\<rparr>]\<rparr>)) = Some res"
    and out: "json_body res = Some out"
    and br: "if sql_type (uni ''select id, qty from stock'') = ''query'' then
        (\<exists>cols raw ds.
           server_columns out = Some cols \<and> server_rows out = Some raw \<and>
           rowcount demo_cursor = JInt (int (length raw)) \<and>
           length (rows demo_cursor) = length raw \<and>
           description demo_cursor = Some ds \<and> length ds = length cols \<and>
           map (spec_descriptor demo_env) cols = map Some ds)
      else json_item out ''rowsAffected'' = Inr (rowcount demo_cursor) \<and>
           description demo_cursor = None \<and> rows demo_cursor = []"
    by blast
  from res out have o: "out = demo_result" unfolding demo_server_answer by auto
  from br obtain cols raw ds where
    1: "server_columns demo_result = Some cols" and 2: "server_rows demo_result = Some raw"
    and 3: "rowcount demo_cursor = JInt (int (length raw))"
    and 4: "length (rows demo_cursor) = length raw"
    and 5: "description demo_cursor = Some ds"
    and 6: "map (spec_descriptor demo_env) cols = map Some ds"
    unfolding demo_query_type o by auto
  from 2 have raw: "raw = [JArr [JInt 1, JInt 10], JArr [JInt 2, JInt 20]]"
    unfolding demo_server_rows by simp
  from 1 have cols: "cols = [JObj [(''name'', JStr (uni ''id'')), (''dataType'', JStr (uni ''INT'')),
                                    (''nullable'', JBool True)],
           JObj [(''name'', JStr (uni ''qty'')), (''dataType'', JStr (uni ''INT''))]]"
    unfolding demo_server_columns by simp
  from 6 have "map Some ds = [Some (JStr (uni ''id''), ''INT'', None, None, None, None, JBool True, 0, 0),
           Some (JStr (uni ''qty''), ''INT'', None, None, None, None, JBool False, 0, 0)]"
    unfolding cols by (simp add: spec_descriptor_def demo_env_def)
  then have ds: "ds = [(JStr (uni ''id''), ''INT'', None, None, None, None, JBool True, 0, 0),
           (JStr (uni ''qty''), ''INT'', None, None, None, None, JBool False, 0, 0)]"
    by (auto simp: map_eq_Cons_conv)
  from 3 4 5 show ?thesis unfolding raw ds by simp
qed


section \<open>Fetching after a query\<close>

lemma fetchone_empty:
  "rows c = [] \<Longrightarrow> Cursor_fetchone c = (None, c\<lparr>description := None\<rparr>)"
  by (simp add: Cursor_fetchone_def)

lemma fetchone_times_drains:
  "fetchone_times (Suc (length (rows c))) c =
     (map Some (rows c) @ [None], c\<lparr>rows := [], description := None\<rparr>)"
proof (induction "rows c" arbitrary: c)
  case Nil
  then have "rows c = []" by simp
  then show ?case by (simp add: Cursor_fetchone_def)
next
  case (Cons r rs)
  from Cons.hyps(2) have eq: "rows c = r # rs" by simp
  have "rs = rows (c\<lparr>rows := rs\<rparr>)" by simp
  from Cons.hyps(1) [OF this] eq show ?case
    by (simp add: Cursor_fetchone_def)
qed

lemma fetchall_drains:
  "Raw JNull \<notin> set (rows c) \<Longrightarrow>
   Cursor_fetchall c = (rows c, c\<lparr>rows := [], description := None\<rparr>)"
  by (simp add: Cursor_fetchall_def fetchall_loop_drains)

lemma fetchmany_empty:
  assumes "rows c = []" and "description c = None"
  shows "Cursor_fetchmany sz c = ([], c)"
proof -
  have "\<And>n. fetchmany_loop n [] c = ([], c)"
  proof -
    fix n :: int
    show "fetchmany_loop n [] c = ([], c)"
    proof (cases "0 < n")
      case True
      with assms show ?thesis by (simp add: fetchmany_loop_drains)
    next
      case False
      then show ?thesis by (simp add: fetchmany_loop_stop)
    qed
  qed
  then show ?thesis by (simp add: Cursor_fetchmany_def Let_def)
qed

lemma count_sentinel: "count_list (map Some xs @ [None]) None = 1"
  by (induction xs) simp_all


text \<open>
  C4.  After a successful query whose result set has \<open>n\<close> rows, the row count is \<open>n\<close>
  and \<open>n + 1\<close> calls of \<open>fetchone\<close> return the \<open>n\<close> converted rows in the order of the
  server (each the tuple of its cells under the converters of the columns) and then
  the sentinel \<open>None\<close>, which so occurs exactly once.  \<open>fetchall\<close> returns the same rows
  and a second \<open>fetchall\<close> returns the empty list; and once drained the buffer stays
  empty under \<open>fetchone\<close>, \<open>fetchmany\<close>, \<open>fetchall\<close> and \<open>close\<close>.
\<close>

theorem fetch_after_query:
  assumes "Cursor_execute env query params c w = (Inr (), c', w')"
    and "sql_type query = ''query''"
  shows "\<exists>res out cols raw convs ts.
     server env (sent w') = Some res \<and> json_body res = Some out \<and>
     server_columns out = Some cols \<and> server_rows out = Some raw \<and>
     map (spec_converter env) cols = map Some convs \<and>
     map (convert_row convs) raw = map Inr ts \<and>
     rowcount c' = JInt (int (length raw)) \<and>
     fetchone_times (length raw + 1) c' =
       (map (\<lambda>t. Some (Tuple t)) ts @ [None], c'\<lparr>rows := [], description := None\<rparr>) \<and>
     count_list (fst (fetchone_times (length raw + 1) c')) None = 1 \<and>
     Cursor_fetchall c' = (map Tuple ts, c'\<lparr>rows := [], description := None\<rparr>) \<and>
     Cursor_fetchall (snd (Cursor_fetchall c')) = ([], snd (Cursor_fetchall c')) \<and>
     Cursor_fetchone (snd (Cursor_fetchall c')) = (None, snd (Cursor_fetchall c')) \<and>
     (\<forall>sz. Cursor_fetchmany sz (snd (Cursor_fetchall c')) = ([], snd (Cursor_fetchall c'))) \<and>
     rows (fst (Cursor_close (snd (Cursor_fetchall c')) w')) = []"
proof -
  from execute_success [OF assms(1)] assms(2) obtain res out where
    res: "server env (sent w') = Some res" and out: "json_body res = Some out"
    and lq: "load_query env out (c\<lparr>description := None, rows := [], rowcount := JInt 0\<rparr>)
               = (Inr (), c')"
    by auto
  from load_query_success [OF lq] obtain cols raw convs ds ts where
    1: "server_columns out = Some cols" and 2: "server_rows out = Some raw"
    and 3: "map (spec_converter env) cols = map Some convs"
    and 4: "map (convert_row convs) raw = map Inr ts"
    and 5: "c' = c\<lparr>description := None, rows := [], rowcount := JInt 0,
                    description := Some ds, rows := map Tuple ts,
                    rowcount := JInt (int (length raw))\<rparr>" by blast
  from 4 have len: "length raw = length ts" by (metis length_map)
  from 5 have rw: "rows c' = map Tuple ts" and rc: "rowcount c' = JInt (int (length raw))"
    by simp_all
  let ?c'' = "c'\<lparr>rows := [], description := None\<rparr>"
  have f1: "fetchone_times (length raw + 1) c' =
       (map (\<lambda>t. Some (Tuple t)) ts @ [None], ?c'')"
    using fetchone_times_drains [of c'] by (simp add: rw len comp_def)
  have f2: "count_list (fst (fetchone_times (length raw + 1) c')) None = 1"
    using fetchone_times_drains [of c'] count_sentinel [of "rows c'"] by (simp add: rw len)
  have nn: "Raw JNull \<notin> set (rows c')" unfolding rw by auto
  have f3: "Cursor_fetchall c' = (map Tuple ts, ?c'')" by (simp add: fetchall_drains [OF nn] rw)
  have f4: "Cursor_fetchall ?c'' = ([], ?c'')" by (simp add: fetchall_drains)
  have f5: "Cursor_fetchone ?c'' = (None, ?c'')" by (simp add: Cursor_fetchone_def)
  have f6: "\<forall>sz. Cursor_fetchmany sz ?c'' = ([], ?c'')" by (simp add: fetchmany_empty)
  have f7: "rows (fst (Cursor_close ?c'' w')) = []" by (simp add: Cursor_close_def)
  from f3 have s: "snd (Cursor_fetchall c') = ?c''" by simp
  from res out 1 2 3 4 rc f1 f2 f3 f4 f5 f6 f7 show ?thesis
    unfolding s by blast
qed

theorem fetch_after_query_witness:
  "fetchone_times 3 demo_cursor =
     ([Some (Tuple [1, 10]), Some (Tuple [2, 20]), None],
      demo_cursor\<lparr>rows := [], description := None\<rparr>) \<and>
   Cursor_fetchall demo_cursor =
     ([Tuple [1, 10], Tuple [2, 20]], demo_cursor\<lparr>rows := [], description := None\<rparr>) \<and>
   Cursor_fetchall (snd (Cursor_fetchall demo_cursor)) = ([], snd (Cursor_fetchall demo_cursor))"
proof -
  from fetch_after_query [OF demo_execute_query demo_query_type]
  obtain res out raw ts where
    res: "server demo_env
     (sent (demo_world\<lparr>sent := [\<lparr>meth = POST, url = ''https://db.example:8080/api/v1/query/tuples'',
       via = \<lparr>auth = Some (''admin'', []),
               headers = [(''Content-Type'', ''application/json''),
                          (''Accept'', ''application/json'')]\<rparr>,
       json_data = Some [(''sql'', JStr (uni ''select id, qty from stock'')),
                         (''database'', JStr (uni ''shop''))]\<rparr>]\<rparr>)) = Some res"
    and out: "json_body res = Some out"
    and raw: "server_rows out = Some raw"
    and f1: "fetchone_times (length raw + 1) demo_cursor =
       (map (\<lambda>t. Some (Tuple t)) ts @ [None], demo_cursor\<lparr>rows := [], description := None\<rparr>)"
    and f3: "Cursor_fetchall demo_cursor =
       (map Tuple ts, demo_cursor\<lparr>rows := [], description := None\<rparr>)"
    and f4: "Cursor_fetchall (snd (Cursor_fetchall demo_cursor))
               = ([], snd (Cursor_fetchall demo_cursor))"
    by blast
  from res out have o: "out = demo_result" unfolding demo_server_answer by auto
  from raw have r: "raw = [JArr [JInt 1, JInt 10], JArr [JInt 2, JInt 20]]"
    unfolding o demo_server_rows by simp
  have "Cursor_fetchall demo_cursor =
          ([Tuple [1, 10], Tuple [2, 20]], demo_cursor\<lparr>rows := [], description := None\<rparr>)"
    by (subst fetchall_drains) (simp_all add: demo_cursor_def)
  with f3 have "map Tuple ts = [Tuple [1, 10], Tuple [2, 20]]" by simp
  then have ts: "ts = [[1, 10], [2, 20]]" by (auto simp: map_eq_Cons_conv)
  have n: "length raw + 1 = 3" unfolding r by simp
  have m: "map (\<lambda>t. Some (Tuple t)) ts @ [None]
             = [Some (Tuple [1, 10]), Some (Tuple [2, 20]), None]"
    unfolding ts by simp
  from f1 have 1: "fetchone_times 3 demo_cursor =
     ([Some (Tuple [1, 10]), Some (Tuple [2, 20]), None],
      demo_cursor\<lparr>rows := [], description := None\<rparr>)"
    unfolding n m .
  from f3 have 2: "Cursor_fetchall demo_cursor =
     ([Tuple [1, 10], Tuple [2, 20]], demo_cursor\<lparr>rows := [], description := None\<rparr>)"
    unfolding ts by simp
  from 1 2 f4 show ?thesis by (intro conjI)
qed

section \<open>executemany\<close>

text \<open>
  C10.  \<open>executemany(query, [])\<close> is \<open>executemany(query)\<close>, and both are one call
  \<open>execute(query)\<close> without parameters: on an open connection one request goes out,
  not none.
\<close>

theorem executemany_empty_seq:
  "Cursor_executemany env query (Some []) c w = Cursor_executemany env query None c w \<and>
   Cursor_executemany env query (Some []) c w = Cursor_execute env query None c w \<and>
   (connection c = Some a \<and> sess (conns w a) = Some s \<longrightarrow>
      sent (snd (snd (Cursor_executemany env query (Some []) c w))) =
        sent w @ [\<lparr>meth = POST,
                    url = urljoin env (base_url (conns w a))
                            (if sql_type query = ''query'' then ''query/tuples'' else ''exec''),
                    via = s,
                    json_data = Some (request_data query None (database (conns w a)))\<rparr>])"
proof (intro conjI impI)
  show "Cursor_executemany env query (Some []) c w = Cursor_executemany env query None c w"
    by (simp add: Cursor_executemany_def)
  show e: "Cursor_executemany env query (Some []) c w = Cursor_execute env query None c w"
    by (simp add: Cursor_executemany_def)
  assume "connection c = Some a \<and> sess (conns w a) = Some s"
  then have c: "connection c = Some a" and s: "sess (conns w a) = Some s" by simp_all
  show "sent (snd (snd (Cursor_executemany env query (Some []) c w))) =
        sent w @ [\<lparr>meth = POST,
                    url = urljoin env (base_url (conns w a))
                            (if sql_type query = ''query'' then ''query/tuples'' else ''exec''),
                    via = s,
                    json_data = Some (request_data query None (database (conns w a)))\<rparr>]"
    unfolding e execute_world [OF c] Cursor_post_open [OF c s] by simp
qed

theorem executemany_empty_seq_witness:
  "length (sent (snd (snd (Cursor_executemany demo_env (uni ''select 1'') (Some []) demo_cursor
                             demo_world)))) = 1"
proof -
  have h: "connection demo_cursor = Some 0 \<and>
           sess (conns demo_world 0) =
             Some \<lparr>auth = Some (''admin'', []),
                    headers = [(''Content-Type'', ''application/json''),
                               (''Accept'', ''application/json'')]\<rparr>"
    using demo_cursor_conn demo_sess by (rule conjI)
  from executemany_empty_seq
         [where env = demo_env and c = demo_cursor and w = demo_world and a = 0,
          THEN conjunct2, THEN conjunct2, rule_format, OF h]
  show ?thesis by (simp add: demo_world_sent)
qed


end
